theory Spec2Isabelle
  imports Main
begin

section \<open>JavaScript strings\<close>

text \<open>
  A JavaScript string is a sequence of UTF-16 code units; \<open>length\<close>, \<open>slice\<close>,
  \<open>trim\<close> and the regular expressions of the sources (none has the \<open>u\<close> flag) all
  work on code units. A string is therefore modelled as a list of code units, each a
  natural number. Every Korean character the sources mention lies in the basic
  multilingual plane and is one code unit. ASCII literals are written through
  \<open>ascii\<close>.
\<close>

type_synonym jsstring = "nat list"

primrec ascii :: "string \<Rightarrow> jsstring" where
  "ascii [] = []"
| "ascii (c # cs) = of_char c # ascii cs"

text \<open>
  The class \<open>\s\<close> of a JavaScript regular expression and the characters removed by
  \<open>String.prototype.trim\<close> are the same set: WhiteSpace and LineTerminator of
  ECMAScript (tab, LF, VT, FF, CR, space, NBSP, U+1680, U+2000 to U+200A, U+2028, U+2029,
  U+202F, U+205F, U+3000, U+FEFF).
\<close>

definition is_ws :: "nat \<Rightarrow> bool" where
  "is_ws c \<longleftrightarrow>
     c = 9 \<or> c = 10 \<or> c = 11 \<or> c = 12 \<or> c = 13 \<or> c = 32 \<or> c = 160 \<or> c = 0x1680 \<or>
     (0x2000 \<le> c \<and> c \<le> 0x200A) \<or> c = 0x2028 \<or> c = 0x2029 \<or> c = 0x202F \<or>
     c = 0x205F \<or> c = 0x3000 \<or> c = 0xFEFF"

text \<open>\<open>s.trim()\<close>\<close>

definition trim :: "jsstring \<Rightarrow> jsstring" where
  "trim s = rev (dropWhile is_ws (rev (dropWhile is_ws s)))"

text \<open>\<open>s.replace(/\s+/g, ' ')\<close>: every maximal run of whitespace becomes one space.\<close>

function collapse_ws :: "jsstring \<Rightarrow> jsstring" where
  "collapse_ws [] = []"
| "collapse_ws (c # cs) =
     (if is_ws c then 32 # collapse_ws (dropWhile is_ws cs) else c # collapse_ws cs)"
  by pat_completeness auto
termination
  by (relation "measure length") (auto simp: length_dropWhile_le less_Suc_eq_le)

text \<open>\<open>s.slice(a, b)\<close> for literal bounds \<open>0 \<le> a \<le> b\<close>, the only use in the sources.\<close>

definition slice :: "nat \<Rightarrow> nat \<Rightarrow> jsstring \<Rightarrow> jsstring" where
  "slice a b s = take (b - a) (drop a s)"

definition is_digit :: "nat \<Rightarrow> bool" where
  "is_digit c \<longleftrightarrow> 48 \<le> c \<and> c \<le> 57"

section \<open>Values of a parsed document\<close>

text \<open>
  Both parsers work on the tree that \<open>XMLParser.parse\<close> of fast-xml-parser returns:
  objects (an ordered list of key and value), arrays, strings, numbers and booleans.
  The sources apply two operations to a number: \<open>String(n)\<close> and the truth test. A
  number is therefore represented by its rendering \<open>String(n)\<close>; it is falsy exactly
  when that rendering is \<open>0\<close> (for \<open>+0\<close> and \<open>-0\<close>) or \<open>NaN\<close>.
\<close>

datatype jv =
    JUndefined
  | JNull
  | JBool bool
  | JNum jsstring
  | JStr jsstring
  | JArr "jv list"
  | JObj "(jsstring \<times> jv) list"

text \<open>The truth test of \<open>!x\<close>, \<open>if (x)\<close> and \<open>filter(Boolean)\<close>.\<close>

fun truthy :: "jv \<Rightarrow> bool" where
  "truthy JUndefined = False"
| "truthy JNull = False"
| "truthy (JBool b) = b"
| "truthy (JNum r) = (r \<noteq> ascii ''0'' \<and> r \<noteq> ascii ''NaN'')"
| "truthy (JStr s) = (s \<noteq> [])"
| "truthy (JArr xs) = True"
| "truthy (JObj kvs) = True"

text \<open>\<open>a ?? b\<close>\<close>

definition nc :: "jv \<Rightarrow> jv \<Rightarrow> jv" where
  "nc a b = (if a = JUndefined \<or> a = JNull then b else a)"

text \<open>
  \<open>x[k]\<close> for the field names of the sources. None of them is an array index,
  \<open>length\<close> or a property of a primitive, so the access yields \<open>undefined\<close> on
  everything but an object that has the key. The sources never reach such an access on
  \<open>null\<close> or \<open>undefined\<close> (each is behind a truth test), where it would raise.
\<close>

fun getprop :: "jv \<Rightarrow> jsstring \<Rightarrow> jv" where
  "getprop (JObj kvs) k = (case map_of kvs k of Some v \<Rightarrow> v | None \<Rightarrow> JUndefined)"
| "getprop v k = JUndefined"

text \<open>\<open>Array.isArray(x) ? x : [x].filter(Boolean)\<close>\<close>

definition as_list :: "jv \<Rightarrow> jv list" where
  "as_list x = (case x of JArr xs \<Rightarrow> xs | _ \<Rightarrow> (if truthy x then [x] else []))"

text \<open>\<open>xs.join(',')\<close> on strings.\<close>

fun join_comma :: "jsstring list \<Rightarrow> jsstring" where
  "join_comma [] = []"
| "join_comma [s] = s"
| "join_comma (s # t # ss) = s @ ascii '','' @ join_comma (t # ss)"

text \<open>\<open>String(x)\<close>: an array is joined with commas, \<open>null\<close> and \<open>undefined\<close> elements
  rendering as the empty string.\<close>

fun js_String :: "jv \<Rightarrow> jsstring" where
  "js_String JUndefined = ascii ''undefined''"
| "js_String JNull = ascii ''null''"
| "js_String (JBool b) = (if b then ascii ''true'' else ascii ''false'')"
| "js_String (JNum r) = r"
| "js_String (JStr s) = s"
| "js_String (JArr xs) =
     join_comma (map (\<lambda>x. if x = JUndefined \<or> x = JNull then [] else js_String x) xs)"
| "js_String (JObj kvs) = ascii ''[object Object]''"

text \<open>The first truthy (non-empty) string of a sequence of results, as the loop
  \<open>for (key of Object.keys(obj)) { val = ...; if (val) return val; }\<close> finds it.\<close>

fun first_truthy :: "jsstring option list \<Rightarrow> jsstring option" where
  "first_truthy [] = None"
| "first_truthy (None # rs) = first_truthy rs"
| "first_truthy (Some s # rs) = (if s \<noteq> [] then Some s else first_truthy rs)"

definition starts_with :: "jsstring \<Rightarrow> jsstring \<Rightarrow> bool" where
  "starts_with p s \<longleftrightarrow> take (length p) s = p"

text \<open>
  \<open>extractText\<close> of the parser; \<open>None\<close> is \<open>undefined\<close>. The keys of an array are
  its indices, none of which starts with \<open>@_\<close>, and \<open>'#text' in\<close> an array is false.
\<close>

fun extractText :: "jv \<Rightarrow> jsstring option" where
  "extractText (JStr s) = Some s"
| "extractText (JNum r) = Some r"
| "extractText (JObj kvs) =
     (case map_of kvs (ascii ''#text'') of
        Some t \<Rightarrow> Some (js_String t)
      | None \<Rightarrow>
          first_truthy
            (map (\<lambda>kv. if starts_with (ascii ''@_'') (fst kv) then None else extractText (snd kv)) kvs))"
| "extractText (JArr xs) = first_truthy (map extractText xs)"
| "extractText JUndefined = None"
| "extractText JNull = None"
| "extractText (JBool b) = None"

text \<open>\<open>extractText(x) ?? ''\<close>\<close>

definition text_of :: "jv \<Rightarrow> jsstring" where
  "text_of x = (case extractText x of Some s \<Rightarrow> s | None \<Rightarrow> [])"

text \<open>
  \<open>parseInt(s, 10)\<close>: leading whitespace is skipped, one sign is read, then the longest
  run of decimal digits; \<open>None\<close> is \<open>NaN\<close> (no digit). The result is the exact
  integer; a JavaScript number rounds it beyond \<open>2^53\<close>, which no comparison with an
  array length can observe, rounding being monotone.
\<close>

definition digits_val :: "jsstring \<Rightarrow> int" where
  "digits_val ds = foldl (\<lambda>a d. 10 * a + (int d - 48)) 0 ds"

definition parseInt10 :: "jsstring \<Rightarrow> int option" where
  "parseInt10 str =
     (let s = dropWhile is_ws str;
          neg = (s \<noteq> [] \<and> hd s = 45);
          r = (if s \<noteq> [] \<and> (hd s = 45 \<or> hd s = 43) then tl s else s);
          ds = takeWhile is_digit r
      in if ds = [] then None else Some (if neg then - digits_val ds else digits_val ds))"

section \<open>Field names of the upstream format\<close>

text \<open>The Korean field names of law.go.kr, as UTF-16 code units (romanised in the
  constant's name).\<close>

abbreviation ko_beopryeong :: jsstring where
  "ko_beopryeong \<equiv> [0xBC95, 0xB839]"
abbreviation ko_beopryeongmyeong :: jsstring where
  "ko_beopryeongmyeong \<equiv> [0xBC95, 0xB839, 0xBA85]"
abbreviation ko_beopryeongmyeonghangeul :: jsstring where
  "ko_beopryeongmyeonghangeul \<equiv> [0xBC95, 0xB839, 0xBA85, 0xD55C, 0xAE00]"
abbreviation ko_beopryeongmyeong_hangeul :: jsstring where
  "ko_beopryeongmyeong_hangeul \<equiv> [0xBC95, 0xB839, 0xBA85, 0x005F, 0xD55C, 0xAE00]"
abbreviation ko_beopryeongmyeong_yeongmun :: jsstring where
  "ko_beopryeongmyeong_yeongmun \<equiv> [0xBC95, 0xB839, 0xBA85, 0x005F, 0xC601, 0xBB38]"
abbreviation ko_beopryeongmyeongyeongmun :: jsstring where
  "ko_beopryeongmyeongyeongmun \<equiv> [0xBC95, 0xB839, 0xBA85, 0xC601, 0xBB38]"
abbreviation ko_beopryeongilryeonbeonho :: jsstring where
  "ko_beopryeongilryeonbeonho \<equiv> [0xBC95, 0xB839, 0xC77C, 0xB828, 0xBC88, 0xD638]"
abbreviation ko_beopryeongID :: jsstring where
  "ko_beopryeongID \<equiv> [0xBC95, 0xB839, 0x0049, 0x0044]"
abbreviation ko_beopryeongbeonho :: jsstring where
  "ko_beopryeongbeonho \<equiv> [0xBC95, 0xB839, 0xBC88, 0xD638]"
abbreviation ko_gongpobeonho :: jsstring where
  "ko_gongpobeonho \<equiv> [0xACF5, 0xD3EC, 0xBC88, 0xD638]"
abbreviation ko_gongpoilja :: jsstring where
  "ko_gongpoilja \<equiv> [0xACF5, 0xD3EC, 0xC77C, 0xC790]"
abbreviation ko_sihaengilja :: jsstring where
  "ko_sihaengilja \<equiv> [0xC2DC, 0xD589, 0xC77C, 0xC790]"
abbreviation ko_beopryeongjongryu :: jsstring where
  "ko_beopryeongjongryu \<equiv> [0xBC95, 0xB839, 0xC885, 0xB958]"
abbreviation ko_jeonchegeonsu :: jsstring where
  "ko_jeonchegeonsu \<equiv> [0xC804, 0xCCB4, 0xAC74, 0xC218]"
abbreviation ko_jomun :: jsstring where
  "ko_jomun \<equiv> [0xC870, 0xBB38]"
abbreviation ko_jomundanwi :: jsstring where
  "ko_jomundanwi \<equiv> [0xC870, 0xBB38, 0xB2E8, 0xC704]"
abbreviation ko_jomunbeonho :: jsstring where
  "ko_jomunbeonho \<equiv> [0xC870, 0xBB38, 0xBC88, 0xD638]"
abbreviation ko_jomunjemok :: jsstring where
  "ko_jomunjemok \<equiv> [0xC870, 0xBB38, 0xC81C, 0xBAA9]"
abbreviation ko_jomunnaeyong :: jsstring where
  "ko_jomunnaeyong \<equiv> [0xC870, 0xBB38, 0xB0B4, 0xC6A9]"
abbreviation ko_hang :: jsstring where
  "ko_hang \<equiv> [0xD56D]"
abbreviation ko_hangnaeyong :: jsstring where
  "ko_hangnaeyong \<equiv> [0xD56D, 0xB0B4, 0xC6A9]"
abbreviation ko_ho :: jsstring where
  "ko_ho \<equiv> [0xD638]"
abbreviation ko_honaeyong :: jsstring where
  "ko_honaeyong \<equiv> [0xD638, 0xB0B4, 0xC6A9]"

text \<open>The two markers of an article number: U+C81C (je) and U+C870 (jo).\<close>

abbreviation ko_je :: nat where
  "ko_je \<equiv> 0xC81C"
abbreviation ko_jo :: nat where
  "ko_jo \<equiv> 0xC870"

section \<open>The discovery parser\<close>

record LawIndexEntry =
  title :: jsstring
  lawId :: jsstring
  lawNumber :: jsstring
  promulgationDate :: jsstring
  enforcementDate :: jsstring
  lawType :: jsstring
  url :: jsstring

record LawListResult =
  entries :: "LawIndexEntry list"
  totalCount :: "int option"
  hasNextPage :: bool

text \<open>
  One round of the loop of \<open>parseLawList\<close>: \<open>None\<close> when the entry is skipped
  (\<open>continue\<close>), the pushed entry otherwise.
\<close>

definition parse_entry :: "jv \<Rightarrow> LawIndexEntry option" where
  "parse_entry entry =
     (if \<not> truthy entry then None
      else
        let title = text_of (nc (getprop entry ko_beopryeongmyeonghangeul)
                      (nc (getprop entry (ascii ''lawNameKorean'')) (getprop entry ko_beopryeongmyeong)));
            lawId = text_of (nc (getprop entry ko_beopryeongilryeonbeonho)
                      (nc (getprop entry (ascii ''lawId''))
                        (nc (getprop entry (ascii ''MST'')) (getprop entry ko_beopryeongID))));
            lawNumber = text_of (nc (getprop entry ko_beopryeongbeonho)
                      (nc (getprop entry (ascii ''lawNumber'')) (getprop entry ko_gongpobeonho)));
            promulgationDate = text_of (nc (getprop entry ko_gongpoilja)
                      (getprop entry (ascii ''promulgationDate'')));
            enforcementDate = text_of (nc (getprop entry ko_sihaengilja)
                      (getprop entry (ascii ''enforcementDate'')));
            lawType = (case extractText (nc (getprop entry ko_beopryeongjongryu)
                               (nc (getprop entry (ascii ''lawType'')) (JStr [])))
                       of Some s \<Rightarrow> s | None \<Rightarrow> ascii ''statute'')
        in if title = [] then None
           else Some \<lparr> title = trim (collapse_ws title),
                       lawId = lawId,
                       lawNumber = lawNumber,
                       promulgationDate = promulgationDate,
                       enforcementDate = enforcementDate,
                       lawType = lawType,
                       url = ascii ''https://www.law.go.kr/LSW/lsInfoP.do?lsiSeq='' @ lawId \<rparr>)"

text \<open>
  \<open>parseLawList\<close> on the parsed listing. \<open>XMLParser.parse\<close> returns an object, given
  here by its fields; \<open>entries.length < totalCount\<close> is false when \<open>totalCount\<close> is
  \<open>NaN\<close>.
\<close>

definition parseLawList :: "(jsstring \<times> jv) list \<Rightarrow> LawListResult" where
  "parseLawList parsed =
     (let root = nc (getprop (JObj parsed) (ascii ''LawSearch'')) (JObj parsed);
          totalCount = parseInt10 (js_String (nc (getprop root (ascii ''totalCnt''))
                                    (nc (getprop root ko_jeonchegeonsu) (JStr (ascii ''0'')))));
          rawEntries = nc (getprop root (ascii ''law'')) (nc (getprop root ko_beopryeong) (JArr []));
          entryList = as_list rawEntries;
          entries = List.map_filter parse_entry entryList;
          pageSize = 100;
          hasNextPage = (length entries \<ge> pageSize \<and>
                         (case totalCount of None \<Rightarrow> False | Some t \<Rightarrow> int (length entries) < t))
      in \<lparr> entries = entries, totalCount = totalCount, hasNextPage = hasNextPage \<rparr>)"

section \<open>The law document parser\<close>

text \<open>
  \<open>formatDate\<close> of the parser. \<open>!dateStr\<close> holds of the empty string only (the
  argument is always a string), \<open>dateStr.replace(/[^0-9]/g, '')\<close> keeps the ASCII
  digits, and the template literal puts a hyphen (code unit 45) between the slices.
\<close>

definition formatDate :: "jsstring \<Rightarrow> jsstring" where
  "formatDate dateStr =
     (if dateStr = [] \<or> length dateStr < 8 then dateStr
      else let clean = filter is_digit dateStr in
        if length clean = 8
        then slice 0 4 clean @ ascii ''-'' @ slice 4 6 clean @ ascii ''-'' @ slice 6 8 clean
        else dateStr)"

text \<open>\<open>/needle/.test(s)\<close> for a literal needle: it occurs somewhere in \<open>s\<close>.\<close>

fun contains :: "jsstring \<Rightarrow> jsstring \<Rightarrow> bool" where
  "contains needle [] = (needle = [])"
| "contains needle (c # cs) = (starts_with needle (c # cs) \<or> contains needle cs)"

datatype doc_type = statute | presidential_decree | ministerial_ordinance

datatype doc_status = in_force | amended | repealed

definition inferDocumentType :: "jsstring \<Rightarrow> doc_type" where
  "inferDocumentType lawType' =
     (if contains [0xB300, 0xD1B5, 0xB839, 0xB839] lawType' then presidential_decree
      else if contains [0xBD80, 0xB839] lawType' \<or> contains [0xCD1D, 0xB9AC, 0xB839] lawType'
      then ministerial_ordinance
      else statute)"

text \<open>The table \<open>abbrevs\<close> of \<open>buildShortName\<close>, keyed by the exact Korean title.
  (The lookup \<open>abbrevs[title]\<close> is taken on the table's own keys; a title that names a
  member of \<open>Object.prototype\<close> is outside this model.)\<close>

definition abbrevs_table :: "(jsstring \<times> jsstring) list" where
  "abbrevs_table =
     [([0xAC1C, 0xC778, 0xC815, 0xBCF4, 0x0020, 0xBCF4, 0xD638, 0xBC95], ascii ''PIPA''),
      ([0xC815, 0xBCF4, 0xD1B5, 0xC2E0, 0xB9DD, 0x0020, 0xC774, 0xC6A9, 0xCD09, 0xC9C4, 0x0020,
        0xBC0F, 0x0020, 0xC815, 0xBCF4, 0xBCF4, 0xD638, 0x0020, 0xB4F1, 0xC5D0, 0x0020, 0xAD00,
        0xD55C, 0x0020, 0xBC95, 0xB960], ascii ''Network Act''),
      ([0xC2E0, 0xC6A9, 0xC815, 0xBCF4, 0xC758, 0x0020, 0xC774, 0xC6A9, 0x0020, 0xBC0F, 0x0020,
        0xBCF4, 0xD638, 0xC5D0, 0x0020, 0xAD00, 0xD55C, 0x0020, 0xBC95, 0xB960],
       ascii ''Credit Information Act''),
      ([0xC804, 0xC790, 0xC815, 0xBD80, 0xBC95], ascii ''E-Government Act''),
      ([0xC9C0, 0xB2A5, 0xC815, 0xBCF4, 0xD654, 0x0020, 0xAE30, 0xBCF8, 0xBC95],
       ascii ''Intelligent Informatization Act'')]"

definition buildShortName :: "jsstring \<Rightarrow> jsstring" where
  "buildShortName title' =
     (case map_of abbrevs_table title' of Some a \<Rightarrow> a | None \<Rightarrow> trim (take 30 title'))"

record ParsedProvision =
  provision_ref :: jsstring
  section_label :: jsstring
  prov_title :: jsstring
  content :: jsstring

record ParsedLaw =
  law_id :: jsstring
  law_type :: doc_type
  law_title :: jsstring
  title_en :: jsstring
  short_name :: jsstring
  law_number :: jsstring
  law_status :: doc_status
  issued_date :: jsstring
  in_force_date :: jsstring
  law_url :: jsstring
  provisions :: "ParsedProvision list"

text \<open>
  The text fields that the loops of \<open>parseLawXml\<close> read, each the source's expression:
  \<open>extractText(item[...] ?? item.itemContent ?? item) ?? ''\<close> and so on.
\<close>

definition itemContent_of :: "jv \<Rightarrow> jsstring" where
  "itemContent_of item =
     text_of (nc (getprop item ko_honaeyong) (nc (getprop item (ascii ''itemContent'')) item))"

definition paraContent_of :: "jv \<Rightarrow> jsstring" where
  "paraContent_of para =
     text_of (nc (getprop para ko_hangnaeyong) (nc (getprop para (ascii ''paragraphContent'')) para))"

definition itemList_of :: "jv \<Rightarrow> jv list" where
  "itemList_of para = as_list (nc (getprop para ko_ho) (JArr []))"

definition articleNumber_of :: "jv \<Rightarrow> jsstring" where
  "articleNumber_of article =
     text_of (nc (getprop article ko_jomunbeonho) (getprop article (ascii ''articleNumber'')))"

definition articleTitle_of :: "jv \<Rightarrow> jsstring" where
  "articleTitle_of article =
     text_of (nc (getprop article ko_jomunjemok) (getprop article (ascii ''articleTitle'')))"

definition articleContent_of :: "jv \<Rightarrow> jsstring" where
  "articleContent_of article =
     text_of (nc (getprop article ko_jomunnaeyong) (getprop article (ascii ''articleContent'')))"

definition paraList_of :: "jv \<Rightarrow> jv list" where
  "paraList_of article = as_list (nc (getprop article ko_hang) (JArr []))"

text \<open>
  The body of the innermost loop of \<open>parseLawXml\<close>, over the items of a paragraph: it
  takes \<open>fullContent\<close> and returns it updated. The separator is a line feed and two
  spaces.
\<close>

definition add_item :: "jsstring \<Rightarrow> jv \<Rightarrow> jsstring" where
  "add_item fullContent item =
     (if \<not> truthy item then fullContent
      else
        let itemContent = itemContent_of item
        in if trim itemContent \<noteq> [] then fullContent @ [10, 32, 32] @ itemContent
           else fullContent)"

text \<open>The body of the loop over the paragraphs of an article; the separator is a line
  feed.\<close>

definition add_para :: "jsstring \<Rightarrow> jv \<Rightarrow> jsstring" where
  "add_para fullContent para =
     (if \<not> truthy para then fullContent
      else
        let paraContent = paraContent_of para;
            fullContent1 = (if trim paraContent \<noteq> [] then fullContent @ [10] @ paraContent
                            else fullContent)
        in foldl add_item fullContent1 (itemList_of para))"

text \<open>\<open>fullContent\<close> of an article when its loops are done.\<close>

definition full_content :: "jv \<Rightarrow> jsstring" where
  "full_content article = foldl add_para (articleContent_of article) (paraList_of article)"

text \<open>
  One round of the loop over the articles: \<open>None\<close> when the article pushes no
  provision. \<open>articleNumber.replace(/[...]/g, '')\<close> removes the two markers.
\<close>

definition parse_article :: "jv \<Rightarrow> ParsedProvision option" where
  "parse_article article =
     (if \<not> truthy article then None
      else
        let articleNumber = articleNumber_of article;
            articleTitle = articleTitle_of article;
            articleContent = articleContent_of article
        in if articleNumber = [] \<and> articleContent = [] then None
           else
             let cleanNumber = trim (filter (\<lambda>c. c \<noteq> ko_je \<and> c \<noteq> ko_jo) articleNumber);
                 provisionRef = ascii ''art-'' @ cleanNumber;
                 fullContent = full_content article
             in if trim fullContent \<noteq> []
                then Some \<lparr> provision_ref = provisionRef,
                            section_label = [ko_je] @ cleanNumber @ [ko_jo],
                            prov_title = articleTitle,
                            content = trim (collapse_ws fullContent) \<rparr>
                else None)"

text \<open>\<open>root\<close> and \<open>articleList\<close> of \<open>parseLawXml\<close>; \<open>XMLParser.parse\<close> returns an
  object, given here by its fields.\<close>

definition law_root :: "(jsstring \<times> jv) list \<Rightarrow> jv" where
  "law_root parsed =
     nc (getprop (JObj parsed) ko_beopryeong) (nc (getprop (JObj parsed) (ascii ''law'')) (JObj parsed))"

definition articleList_of :: "jv \<Rightarrow> jv list" where
  "articleList_of root =
     as_list (nc (getprop root ko_jomun)
               (nc (getprop root ko_jomundanwi) (nc (getprop root (ascii ''articles'')) (JArr []))))"

text \<open>
  \<open>parseLawXml\<close> on the parsed document. \<open>lawNumber || lawId\<close> is \<open>lawNumber\<close>
  unless it is the empty string. (A primed name is the source's parameter of that name.)
\<close>

definition parseLawXml :: "(jsstring \<times> jv) list \<Rightarrow> jsstring \<Rightarrow> ParsedLaw" where
  "parseLawXml parsed lawId' =
     (let root = law_root parsed;
          title = text_of (nc (getprop root ko_beopryeongmyeong_hangeul)
                    (nc (getprop root ko_beopryeongmyeonghangeul)
                      (nc (getprop root (ascii ''lawNameKorean'')) (getprop root ko_beopryeongmyeong))));
          titleEn = text_of (nc (getprop root ko_beopryeongmyeong_yeongmun)
                      (nc (getprop root ko_beopryeongmyeongyeongmun)
                        (getprop root (ascii ''lawNameEnglish''))));
          lawNumber = text_of (nc (getprop root ko_beopryeongbeonho)
                        (nc (getprop root (ascii ''lawNumber'')) (getprop root ko_gongpobeonho)));
          promulgationDate = text_of (nc (getprop root ko_gongpoilja)
                               (getprop root (ascii ''promulgationDate'')));
          enforcementDate = text_of (nc (getprop root ko_sihaengilja)
                              (getprop root (ascii ''enforcementDate'')));
          lawType = text_of (nc (getprop root ko_beopryeongjongryu) (getprop root (ascii ''lawType'')))
      in \<lparr> law_id = ascii ''act-'' @ (if lawNumber \<noteq> [] then lawNumber else lawId'),
           law_type = inferDocumentType lawType,
           law_title = title,
           title_en = titleEn,
           short_name = buildShortName title,
           law_number = lawNumber,
           law_status = in_force,
           issued_date = formatDate promulgationDate,
           in_force_date = formatDate enforcementDate,
           law_url = ascii ''https://www.law.go.kr/LSW/lsInfoP.do?lsiSeq='' @ lawId',
           provisions = List.map_filter parse_article (articleList_of root) \<rparr>)"

section \<open>The rate-limited fetch client\<close>

record FetchResult =
  status :: int
  body :: jsstring
  contentType :: jsstring

text \<open>
  What a call can raise: the error that \<open>fetchWithRateLimit\<close> constructs after its
  loop (with the URL and \<open>maxRetries\<close> of its message), or any other exception (a
  network failure of \<open>fetch\<close>, a failure of the XML or JSON parser, of the database).
\<close>

datatype js_error = FetchExhausted jsstring int | Thrown jsstring

text \<open>
  The trace of one call of \<open>fetchWithRateLimit\<close>: what it returns or raises, how
  many requests it sent, and the delays in milliseconds it slept between them.
\<close>

record fetch_run =
  outcome :: "js_error + FetchResult"
  requests :: nat
  backoffs :: "int list"

text \<open>
  The loop \<open>for (attempt = 0; attempt <= maxRetries; attempt++)\<close>. The answer of the
  network to the \<open>n\<close>-th request of the call is \<open>upstream n\<close>: a response, or an
  exception of \<open>fetch\<close>, which the function does not catch. \<open>reqs\<close> counts the
  requests sent so far and \<open>slept\<close> collects the delays. The throttle \<open>rateLimit\<close>
  that precedes the loop only waits on the clock and is not modelled; reading the body
  of a response is taken to succeed.
\<close>

function fetch_attempts ::
  "(nat \<Rightarrow> js_error + FetchResult) \<Rightarrow> jsstring \<Rightarrow> int \<Rightarrow> int \<Rightarrow> nat \<Rightarrow> int list \<Rightarrow> fetch_run" where
  "fetch_attempts upstream url' maxRetries attempt reqs slept =
     (if attempt \<le> maxRetries then
        (case upstream reqs of
           Inl e \<Rightarrow> \<lparr> outcome = Inl e, requests = Suc reqs, backoffs = slept \<rparr>
         | Inr response \<Rightarrow>
             if (status response = 429 \<or> status response \<ge> 500) \<and> attempt < maxRetries
             then fetch_attempts upstream url' maxRetries (attempt + 1) (Suc reqs)
                    (slept @ [2 ^ nat (attempt + 1) * 1000])
             else \<lparr> outcome = Inr response, requests = Suc reqs, backoffs = slept \<rparr>)
      else \<lparr> outcome = Inl (FetchExhausted url' maxRetries), requests = reqs, backoffs = slept \<rparr>)"
  by pat_completeness auto
termination
  by (relation "measure (\<lambda>(upstream, url', maxRetries, attempt, reqs, slept). nat (maxRetries + 1 - attempt))")
    auto

definition fetchWithRateLimit :: "(nat \<Rightarrow> js_error + FetchResult) \<Rightarrow> jsstring \<Rightarrow> int \<Rightarrow> fetch_run" where
  "fetchWithRateLimit upstream url' maxRetries = fetch_attempts upstream url' maxRetries 0 0 []"

section \<open>The ingestion orchestrator: the content phase\<close>

text \<open>\<open>map.set(k, v)\<close> on an insertion-ordered map, also a directory of files written
  by name: a present key keeps its place, a new one goes last.\<close>

fun map_set :: "'k \<Rightarrow> 'v \<Rightarrow> ('k \<times> 'v) list \<Rightarrow> ('k \<times> 'v) list" where
  "map_set k v [] = [(k, v)]"
| "map_set k v (kv # kvs) = (if fst kv = k then (k, v) # kvs else kv # map_set k v kvs)"

text \<open>
  The state of \<open>fetchAndParseLaws\<close>: the seed directory (file name and the
  \<open>ParsedLaw\<close> whose JSON the file holds) and the four counters. The file of a law is
  \<open>${law.lawId}.json\<close> in the seed directory; the ids are taken to be plain file names
  (no path separator).
\<close>

record ingest_state =
  seedDir :: "(jsstring \<times> ParsedLaw) list"
  processed :: nat
  skipped :: nat
  failed :: nat
  totalProvisions :: nat

definition seedFile_of :: "LawIndexEntry \<Rightarrow> jsstring" where
  "seedFile_of law = lawId law @ ascii ''.json''"

text \<open>The stub that the 404 branch writes.\<close>

definition minimalSeed :: "LawIndexEntry \<Rightarrow> ParsedLaw" where
  "minimalSeed law =
     \<lparr> law_id = ascii ''act-'' @ (if lawNumber law \<noteq> [] then lawNumber law else lawId law),
       law_type = statute,
       law_title = title law,
       title_en = [],
       short_name = [],
       law_number = lawNumber law,
       law_status = in_force,
       issued_date = promulgationDate law,
       in_force_date = enforcementDate law,
       law_url = url law,
       provisions = [] \<rparr>"

text \<open>
  One round of the loop of \<open>fetchAndParseLaws\<close>. \<open>xml_parse\<close> is \<open>XMLParser.parse\<close>,
  which may raise; \<open>fetchLawDetail\<close> is the fetch of a law by its id, which returns a
  response or raises. Both exceptions reach the \<open>catch\<close> of the round. Writing a file
  is taken to succeed.
\<close>

definition process_law ::
  "(jsstring \<Rightarrow> js_error + (jsstring \<times> jv) list) \<Rightarrow> (jsstring \<Rightarrow> js_error + FetchResult) \<Rightarrow>
   ingest_state \<Rightarrow> LawIndexEntry \<Rightarrow> ingest_state" where
  "process_law xml_parse fetchLawDetail st law =
     (let seedFile = seedFile_of law in
      if seedFile \<in> fst ` set (seedDir st)
      then st \<lparr> skipped := skipped st + 1, processed := processed st + 1 \<rparr>
      else
        let st1 =
          (case fetchLawDetail (lawId law) of
             Inl e \<Rightarrow> st \<lparr> failed := failed st + 1 \<rparr>
           | Inr result \<Rightarrow>
               if status result \<noteq> 200 then
                 if status result = 404
                 then st \<lparr> seedDir := map_set seedFile (minimalSeed law) (seedDir st),
                           failed := failed st + 1 \<rparr>
                 else st \<lparr> failed := failed st + 1 \<rparr>
               else
                 (case xml_parse (body result) of
                    Inl e \<Rightarrow> st \<lparr> failed := failed st + 1 \<rparr>
                  | Inr tree \<Rightarrow>
                      let parsed = parseLawXml tree (lawId law)
                      in st \<lparr> seedDir := map_set seedFile parsed (seedDir st),
                              totalProvisions := totalProvisions st + length (provisions parsed) \<rparr>))
        in st1 \<lparr> processed := processed st1 + 1 \<rparr>)"

text \<open>
  \<open>limit ? laws.slice(0, limit) : laws\<close>: \<open>None\<close> is \<open>null\<close> or \<open>NaN\<close>, both
  falsy like 0; a negative limit counts from the end.
\<close>

definition toProcess_of :: "LawIndexEntry list \<Rightarrow> int option \<Rightarrow> LawIndexEntry list" where
  "toProcess_of laws limit =
     (case limit of
        None \<Rightarrow> laws
      | Some n \<Rightarrow> if n = 0 then laws
                  else if n > 0 then take (nat n) laws
                  else take (length laws - nat (- n)) laws)"

text \<open>\<open>fetchAndParseLaws\<close>, from the seed directory as it stands when the run starts.\<close>

definition fetchAndParseLaws ::
  "(jsstring \<Rightarrow> js_error + (jsstring \<times> jv) list) \<Rightarrow> (jsstring \<Rightarrow> js_error + FetchResult) \<Rightarrow>
   (jsstring \<times> ParsedLaw) list \<Rightarrow> LawIndexEntry list \<Rightarrow> int option \<Rightarrow> ingest_state" where
  "fetchAndParseLaws xml_parse fetchLawDetail dir laws limit =
     foldl (process_law xml_parse fetchLawDetail)
       \<lparr> seedDir = dir, processed = 0, skipped = 0, failed = 0, totalProvisions = 0 \<rparr>
       (toProcess_of laws limit)"

section \<open>The index builder\<close>

text \<open>
  The seed types of the builder. An optional field of the interface is an \<open>option\<close>
  (\<open>None\<close> for a missing or \<open>null\<close> field); \<open>metadata\<close> is kept as its JSON text.
  The value of \<open>type\<close> and \<open>status\<close> is whatever string the file holds: the cast
  \<open>JSON.parse(content) as DocumentSeed\<close> checks nothing.
\<close>

record ProvisionSeed =
  s_provision_ref :: jsstring
  s_chapter :: "jsstring option"
  s_section :: jsstring
  s_title :: "jsstring option"
  s_content :: jsstring
  s_content_en :: "jsstring option"
  s_metadata :: "jsstring option"

record DocumentSeed =
  d_id :: jsstring
  d_type :: "jsstring option"
  d_title :: jsstring
  d_title_en :: "jsstring option"
  d_short_name :: "jsstring option"
  d_law_number :: "jsstring option"
  d_status :: "jsstring option"
  d_issued_date :: "jsstring option"
  d_in_force_date :: "jsstring option"
  d_url :: "jsstring option"
  d_description :: "jsstring option"
  d_language :: "jsstring option"
  d_provisions :: "ProvisionSeed list option"

definition normalizeWhitespace :: "jsstring \<Rightarrow> jsstring" where
  "normalizeWhitespace s = trim (collapse_ws s)"

text \<open>
  One round of the loop of \<open>dedupeProvisions\<close> on the map \<open>byRef\<close>. The spread
  \<open>{...provision, provision_ref: ref}\<close> copies every field and replaces the reference;
  \<open>provision.title ?? existing.title\<close> is the title of \<open>provision\<close> unless it is
  missing.
\<close>

definition dedupe_step ::
  "(jsstring \<times> ProvisionSeed) list \<Rightarrow> ProvisionSeed \<Rightarrow> (jsstring \<times> ProvisionSeed) list" where
  "dedupe_step byRef provision =
     (let ref = trim (s_provision_ref provision) in
      case map_of byRef ref of
        None \<Rightarrow> map_set ref (provision \<lparr> s_provision_ref := ref \<rparr>) byRef
      | Some existing \<Rightarrow>
          let existingContent = normalizeWhitespace (s_content existing);
              incomingContent = normalizeWhitespace (s_content provision)
          in if length incomingContent > length existingContent
             then map_set ref
                    (provision \<lparr> s_provision_ref := ref,
                                 s_title := (case s_title provision of
                                               Some t \<Rightarrow> Some t
                                             | None \<Rightarrow> s_title existing) \<rparr>)
                    byRef
             else byRef)"

text \<open>\<open>Array.from(byRef.values())\<close> once the loop is done.\<close>

definition dedupeProvisions :: "ProvisionSeed list \<Rightarrow> ProvisionSeed list" where
  "dedupeProvisions provs = map snd (foldl dedupe_step [] provs)"

text \<open>
  The tables that the load fills, with the columns that the inserts bind (the row id
  and the time stamp that SQLite supplies are left out). A row of \<open>eu_documents\<close> is
  given by its id and a row of \<open>eu_references\<close> by its document and the EU document it
  refers to, the other columns being constants of the source.
\<close>

record doc_row =
  r_id :: jsstring
  r_type :: jsstring
  r_title :: jsstring
  r_title_en :: "jsstring option"
  r_short_name :: "jsstring option"
  r_law_number :: "jsstring option"
  r_status :: jsstring
  r_issued_date :: "jsstring option"
  r_in_force_date :: "jsstring option"
  r_url :: "jsstring option"
  r_description :: "jsstring option"
  r_language :: jsstring

record prov_row =
  p_document_id :: jsstring
  p_provision_ref :: jsstring
  p_chapter :: "jsstring option"
  p_section :: jsstring
  p_title :: "jsstring option"
  p_content :: jsstring
  p_content_en :: "jsstring option"
  p_language :: jsstring
  p_metadata :: "jsstring option"

record store =
  legal_documents :: "doc_row list"
  legal_provisions :: "prov_row list"
  eu_documents :: "jsstring list"
  eu_references :: "(jsstring \<times> jsstring) list"

definition empty_store :: store where
  "empty_store = \<lparr> legal_documents = [], legal_provisions = [], eu_documents = [], eu_references = [] \<rparr>"

definition or_else :: "'a option \<Rightarrow> 'a \<Rightarrow> 'a" where
  "or_else x d = (case x of Some v \<Rightarrow> v | None \<Rightarrow> d)"

text \<open>
  \<open>insertDoc.run(...)\<close>. The schema makes \<open>id\<close> the primary key of
  \<open>legal_documents\<close> and checks \<open>type\<close> and \<open>status\<close> against their lists; the
  statement is a plain \<open>INSERT\<close>, so a violated constraint raises (SQLite tests the
  checks before the keys; the message of a failed check is abridged here).
\<close>

definition insertDoc :: "store \<Rightarrow> DocumentSeed \<Rightarrow> js_error + store" where
  "insertDoc st seed =
     (let row = \<lparr> r_id = d_id seed,
                  r_type = or_else (d_type seed) (ascii ''statute''),
                  r_title = d_title seed,
                  r_title_en = d_title_en seed,
                  r_short_name = d_short_name seed,
                  r_law_number = d_law_number seed,
                  r_status = or_else (d_status seed) (ascii ''in_force''),
                  r_issued_date = d_issued_date seed,
                  r_in_force_date = d_in_force_date seed,
                  r_url = d_url seed,
                  r_description = d_description seed,
                  r_language = or_else (d_language seed) (ascii ''ko'') \<rparr>
      in if r_type row \<notin> set [ascii ''statute'', ascii ''presidential_decree'', ascii ''ministerial_ordinance'']
            \<or> r_status row \<notin> set [ascii ''in_force'', ascii ''amended'', ascii ''repealed'',
                                    ascii ''not_yet_in_force'']
         then Inl (Thrown (ascii ''CHECK constraint failed''))
         else if r_id row \<in> r_id ` set (legal_documents st)
         then Inl (Thrown (ascii ''UNIQUE constraint failed: legal_documents.id''))
         else Inr (st \<lparr> legal_documents := legal_documents st @ [row] \<rparr>))"

text \<open>\<open>insertProvision.run(...)\<close>; the table is unique on document id and reference.\<close>

definition insertProvision :: "store \<Rightarrow> jsstring \<Rightarrow> ProvisionSeed \<Rightarrow> js_error + store" where
  "insertProvision st doc prov =
     (if (doc, s_provision_ref prov) \<in> (\<lambda>r. (p_document_id r, p_provision_ref r)) ` set (legal_provisions st)
      then Inl (Thrown (ascii ''UNIQUE constraint failed: legal_provisions.document_id, legal_provisions.provision_ref''))
      else Inr (st \<lparr> legal_provisions := legal_provisions st @
                  [\<lparr> p_document_id = doc,
                     p_provision_ref = s_provision_ref prov,
                     p_chapter = s_chapter prov,
                     p_section = s_section prov,
                     p_title = s_title prov,
                     p_content = s_content prov,
                     p_content_en = s_content_en prov,
                     p_language = ascii ''ko'',
                     p_metadata = s_metadata prov \<rparr>] \<rparr>))"

fun insertProvisions :: "store \<Rightarrow> jsstring \<Rightarrow> ProvisionSeed list \<Rightarrow> js_error + store" where
  "insertProvisions st doc [] = Inr st"
| "insertProvisions st doc (prov # provs) =
     (case insertProvision st doc prov of
        Inl e \<Rightarrow> Inl e
      | Inr st1 \<Rightarrow> insertProvisions st1 doc provs)"

text \<open>\<open>insertDefaultEuDocuments\<close>: three rows, each \<open>INSERT OR IGNORE\<close>.\<close>

definition insertDefaultEuDocuments :: "store \<Rightarrow> store" where
  "insertDefaultEuDocuments st =
     st \<lparr> eu_documents :=
            foldl (\<lambda>ds d. if d \<in> set ds then ds else ds @ [d]) (eu_documents st)
              [ascii ''regulation:2016/679'', ascii ''directive:2022/2555'', ascii ''regulation:2024/1689''] \<rparr>"

text \<open>
  The body of the loop of \<open>loadAll\<close> for one seed: the document row, \<open>continue\<close> when
  it has no provision, else its deduplicated provisions and, for a title with one of the
  two markers, the reference to the GDPR (\<open>eu_article\<close> is \<open>NULL\<close>, so the unique index
  never rejects the row).
\<close>

definition load_seed :: "store \<Rightarrow> DocumentSeed \<Rightarrow> js_error + store" where
  "load_seed st seed =
     (case insertDoc st seed of
        Inl e \<Rightarrow> Inl e
      | Inr st1 \<Rightarrow>
          (case d_provisions seed of
             None \<Rightarrow> Inr st1
           | Some provs \<Rightarrow>
               if provs = [] then Inr st1
               else
                 (case insertProvisions st1 (d_id seed) (dedupeProvisions provs) of
                    Inl e \<Rightarrow> Inl e
                  | Inr st2 \<Rightarrow>
                      if contains [0xAC1C, 0xC778, 0xC815, 0xBCF4, 0x0020, 0xBCF4, 0xD638, 0xBC95]
                           (d_title seed)
                         \<or> (case d_title_en seed of
                               None \<Rightarrow> False
                             | Some t \<Rightarrow> contains (ascii ''Personal Information Protection'') t)
                      then Inr (st2 \<lparr> eu_references := eu_references st2 @
                                        [(d_id seed, ascii ''regulation:2016/679'')] \<rparr>)
                      else Inr st2)))"

fun load_seeds :: "store \<Rightarrow> DocumentSeed list \<Rightarrow> js_error + store" where
  "load_seeds st [] = Inr st"
| "load_seeds st (seed # seeds) =
     (case load_seed st seed of
        Inl e \<Rightarrow> Inl e
      | Inr st1 \<Rightarrow> load_seeds st1 seeds)"

text \<open>The transaction \<open>loadAll\<close>: the default EU documents, then every seed file.\<close>

definition loadAll :: "store \<Rightarrow> DocumentSeed list \<Rightarrow> js_error + store" where
  "loadAll st seeds = load_seeds (insertDefaultEuDocuments st) seeds"

definition ends_with :: "jsstring \<Rightarrow> jsstring \<Rightarrow> bool" where
  "ends_with p s \<longleftrightarrow> starts_with (rev p) (rev s)"

text \<open>The filter on the names that \<open>readdirSync\<close> lists.\<close>

definition is_seed_file :: "jsstring \<Rightarrow> bool" where
  "is_seed_file f \<longleftrightarrow>
     ends_with (ascii ''.json'') f \<and> \<not> starts_with (ascii ''.'') f \<and> \<not> starts_with (ascii ''_'') f"

text \<open>
  \<open>buildDatabase\<close> on the seed directory (\<open>None\<close> when there is none), each file
  given by its name and the seed that \<open>JSON.parse\<close> reads from it, in the order of
  \<open>readdirSync\<close>. The database is created anew. The result is the exception that
  leaves the function, if any, and the tables as committed: a transaction that raises is
  rolled back, so none of its rows remains. The metadata table and the final pragmas are
  left out.
\<close>

definition buildDatabase :: "(jsstring \<times> DocumentSeed) list option \<Rightarrow> js_error option \<times> store" where
  "buildDatabase dir =
     (case dir of
        None \<Rightarrow> (None, insertDefaultEuDocuments empty_store)
      | Some files \<Rightarrow>
          let seedFiles = filter (\<lambda>f. is_seed_file (fst f)) files in
          if seedFiles = [] then (None, insertDefaultEuDocuments empty_store)
          else
            (case loadAll empty_store (map snd seedFiles) of
               Inl e \<Rightarrow> (Some e, empty_store)
             | Inr st \<Rightarrow> (None, st)))"

text \<open>
  What \<open>JSON.parse\<close> reads back from the file that the orchestrator wrote with
  \<open>JSON.stringify\<close>: every field of a \<open>ParsedLaw\<close> is present.
\<close>

definition type_name :: "doc_type \<Rightarrow> jsstring" where
  "type_name t = (case t of statute \<Rightarrow> ascii ''statute''
                  | presidential_decree \<Rightarrow> ascii ''presidential_decree''
                  | ministerial_ordinance \<Rightarrow> ascii ''ministerial_ordinance'')"

definition status_name :: "doc_status \<Rightarrow> jsstring" where
  "status_name t = (case t of in_force \<Rightarrow> ascii ''in_force''
                    | amended \<Rightarrow> ascii ''amended''
                    | repealed \<Rightarrow> ascii ''repealed'')"

definition seed_of_provision :: "ParsedProvision \<Rightarrow> ProvisionSeed" where
  "seed_of_provision p =
     \<lparr> s_provision_ref = provision_ref p, s_chapter = None, s_section = section_label p,
       s_title = Some (prov_title p), s_content = content p, s_content_en = None,
       s_metadata = None \<rparr>"

definition seed_of_law :: "ParsedLaw \<Rightarrow> DocumentSeed" where
  "seed_of_law law =
     \<lparr> d_id = law_id law,
       d_type = Some (type_name (law_type law)),
       d_title = law_title law,
       d_title_en = Some (title_en law),
       d_short_name = Some (short_name law),
       d_law_number = Some (law_number law),
       d_status = Some (status_name (law_status law)),
       d_issued_date = Some (issued_date law),
       d_in_force_date = Some (in_force_date law),
       d_url = Some (law_url law),
       d_description = None,
       d_language = None,
       d_provisions = Some (map seed_of_provision (provisions law)) \<rparr>"

section \<open>The update checker\<close>

record UpdateHit =
  document_id :: jsstring
  hit_title :: jsstring
  remote_updated :: jsstring

text \<open>\<open>KEY_QUERIES\<close> of the checker.\<close>

definition KEY_QUERIES :: "jsstring list" where
  "KEY_QUERIES =
     [[0xAC1C, 0xC778, 0xC815, 0xBCF4],
      [0xC815, 0xBCF4, 0xD1B5, 0xC2E0, 0xB9DD],
      [0xC2E0, 0xC6A9, 0xC815, 0xBCF4],
      [0xC804, 0xC790, 0xC815, 0xBD80],
      [0xC9C0, 0xB2A5, 0xC815, 0xBCF4, 0xD654]]"

text \<open>
  \<open>fetchRecentEntries\<close>: page 1 of each query; a response other than 200 adds
  nothing, an exception of the fetch or of the parser leaves the function.
\<close>

fun fetchRecentEntries_from ::
  "(jsstring \<Rightarrow> js_error + (jsstring \<times> jv) list) \<Rightarrow> (nat \<Rightarrow> jsstring \<Rightarrow> js_error + FetchResult) \<Rightarrow>
   LawIndexEntry list \<Rightarrow> jsstring list \<Rightarrow> js_error + LawIndexEntry list" where
  "fetchRecentEntries_from xml_parse fetchLawList acc [] = Inr acc"
| "fetchRecentEntries_from xml_parse fetchLawList acc (query # queries) =
     (case fetchLawList 1 query of
        Inl e \<Rightarrow> Inl e
      | Inr result \<Rightarrow>
          if status result = 200
          then (case xml_parse (body result) of
                  Inl e \<Rightarrow> Inl e
                | Inr tree \<Rightarrow>
                    fetchRecentEntries_from xml_parse fetchLawList
                      (acc @ entries (parseLawList tree)) queries)
          else fetchRecentEntries_from xml_parse fetchLawList acc queries)"

definition fetchRecentEntries ::
  "(jsstring \<Rightarrow> js_error + (jsstring \<times> jv) list) \<Rightarrow> (nat \<Rightarrow> jsstring \<Rightarrow> js_error + FetchResult) \<Rightarrow>
   js_error + LawIndexEntry list" where
  "fetchRecentEntries xml_parse fetchLawList =
     fetchRecentEntries_from xml_parse fetchLawList [] KEY_QUERIES"

text \<open>
  What the checker finds on disk: whether the database file exists, the ids that
  \<open>SELECT id FROM legal_documents\<close> returns (or the exception of opening or querying
  the database), and the exception, if any, of reading the cached index, whose entries
  the function stores in a map it never reads.
\<close>

record check_env =
  dbExists :: bool
  localIds :: "js_error + jsstring list"
  indexError :: "js_error option"

record check_result =
  exit_code :: int
  newLaws :: "UpdateHit list"

text \<open>The loop of \<open>main\<close> over the upstream entries.\<close>

definition new_hits :: "jsstring list \<Rightarrow> LawIndexEntry list \<Rightarrow> UpdateHit list" where
  "new_hits localDocs recentEntries =
     List.map_filter
       (\<lambda>entry.
          let documentId = ascii ''act-'' @ (if lawNumber entry \<noteq> [] then lawNumber entry else lawId entry)
          in if documentId \<notin> set localDocs
             then Some \<lparr> document_id = documentId, hit_title = title entry,
                         remote_updated = enforcementDate entry \<rparr>
             else None)
       recentEntries"

text \<open>
  \<open>main\<close> of the checker with its \<open>catch\<close>: an exception anywhere exits 2; so does
  a missing database file. \<open>updatedLaws\<close> stays empty throughout. Returning from
  \<open>main\<close> ends the process with code 0.
\<close>

definition check_main ::
  "(jsstring \<Rightarrow> js_error + (jsstring \<times> jv) list) \<Rightarrow> (nat \<Rightarrow> jsstring \<Rightarrow> js_error + FetchResult) \<Rightarrow>
   check_env \<Rightarrow> check_result" where
  "check_main xml_parse fetchLawList env =
     (if \<not> dbExists env then \<lparr> exit_code = 2, newLaws = [] \<rparr>
      else
        case localIds env of
          Inl e \<Rightarrow> \<lparr> exit_code = 2, newLaws = [] \<rparr>
        | Inr localDocs \<Rightarrow>
            (case indexError env of
               Some e \<Rightarrow> \<lparr> exit_code = 2, newLaws = [] \<rparr>
             | None \<Rightarrow>
                 (case fetchRecentEntries xml_parse fetchLawList of
                    Inl e \<Rightarrow> \<lparr> exit_code = 2, newLaws = [] \<rparr>
                  | Inr recentEntries \<Rightarrow>
                      let updatedLaws = ([] :: UpdateHit list);
                          newLaws = new_hits localDocs recentEntries
                      in if length updatedLaws > 0 \<or> length newLaws > 0
                         then \<lparr> exit_code = 1, newLaws = newLaws \<rparr>
                         else \<lparr> exit_code = 0, newLaws = newLaws \<rparr>)))"

section \<open>The specification's notions and sample inputs\<close>

text \<open>An 8-digit numeric date string, in the words of the specification.\<close>

definition is_date8 :: "jsstring \<Rightarrow> bool" where
  "is_date8 s \<longleftrightarrow> length s = 8 \<and> list_all is_digit s"

text \<open>
  The flattening in the words of the specification: the article's own content, then
  for each child paragraph its content on a new line and each of its items on an
  indented line of its own. A paragraph or item whose text is blank adds no line, and a
  falsy node adds nothing.
\<close>

definition item_line :: "jv \<Rightarrow> jsstring" where
  "item_line item =
     (if truthy item \<and> trim (itemContent_of item) \<noteq> [] then [10, 32, 32] @ itemContent_of item else [])"

definition para_lines :: "jv \<Rightarrow> jsstring" where
  "para_lines para =
     (if truthy para
      then (if trim (paraContent_of para) \<noteq> [] then [10] @ paraContent_of para else [])
           @ concat (map item_line (itemList_of para))
      else [])"

definition flat_text :: "jv \<Rightarrow> jsstring" where
  "flat_text article = articleContent_of article @ concat (map para_lines (paraList_of article))"

text \<open>The articles from which the loop pushes a provision.\<close>

definition emits_provision :: "jv \<Rightarrow> bool" where
  "emits_provision article \<longleftrightarrow>
     truthy article \<and> (articleNumber_of article \<noteq> [] \<or> articleContent_of article \<noteq> []) \<and>
     trim (flat_text article) \<noteq> []"

text \<open>A sample document: one article with a paragraph that has one item.\<close>

definition ex_article :: jv where
  "ex_article =
     JObj [(ko_jomunbeonho, JStr [ko_je, 49, ko_jo]),
           (ko_jomunjemok, JStr (ascii ''Purpose'')),
           (ko_jomunnaeyong, JStr (ascii ''A'')),
           (ko_hang, JArr [JObj [(ko_hangnaeyong, JStr (ascii ''B'')),
                                 (ko_ho, JArr [JObj [(ko_honaeyong, JStr (ascii ''C''))]])]])]"

definition ex_law :: "(jsstring \<times> jv) list" where
  "ex_law = [(ko_beopryeongbeonho, JStr (ascii ''N1'')), (ko_jomundanwi, JArr [ex_article])]"

text \<open>A sample index entry, the listing node it is parsed from, and a full page of 100
  such nodes for a query that has 200 results.\<close>

definition ex_entry :: LawIndexEntry where
  "ex_entry = \<lparr> title = ascii ''Act'', lawId = ascii ''1'', lawNumber = ascii ''N1'',
                promulgationDate = ascii ''20200101'', enforcementDate = ascii ''20200201'',
                lawType = [], url = ascii ''https://www.law.go.kr/LSW/lsInfoP.do?lsiSeq=1'' \<rparr>"




text \<open>An upstream that answers every request with status 500.\<close>

definition always_500 :: "nat \<Rightarrow> js_error + FetchResult" where
  "always_500 n = Inr \<lparr> status = 500, body = [], contentType = [] \<rparr>"

text \<open>An upstream that answers every request with 429 or a 5xx status.\<close>

definition only_retryable :: "(nat \<Rightarrow> js_error + FetchResult) \<Rightarrow> bool" where
  "only_retryable upstream \<longleftrightarrow>
     (\<forall>n. \<exists>response. upstream n = Inr response \<and> (status response = 429 \<or> status response \<ge> 500))"

text \<open>Sample answers of the network and of the XML parser, and the state of a run that
  starts on an empty seed directory.\<close>

definition respond :: "int \<Rightarrow> jsstring \<Rightarrow> js_error + FetchResult" where
  "respond code i = Inr \<lparr> status = code, body = [], contentType = [] \<rparr>"

definition fetch_raises :: "jsstring \<Rightarrow> js_error + FetchResult" where
  "fetch_raises i = Inl (Thrown (ascii ''fetch failed''))"

definition xml_raises :: "jsstring \<Rightarrow> js_error + (jsstring \<times> jv) list" where
  "xml_raises x = Inl (Thrown (ascii ''invalid document''))"

definition xml_ex_law :: "jsstring \<Rightarrow> js_error + (jsstring \<times> jv) list" where
  "xml_ex_law x = Inr ex_law"

definition fresh_run :: ingest_state where
  "fresh_run = \<lparr> seedDir = [], processed = 0, skipped = 0, failed = 0, totalProvisions = 0 \<rparr>"

text \<open>The derived document id of an entry, as the checker computes it.\<close>

definition derived_id :: "LawIndexEntry \<Rightarrow> jsstring" where
  "derived_id entry = ascii ''act-'' @ (if lawNumber entry \<noteq> [] then lawNumber entry else lawId entry)"

text \<open>A query fails when its fetch raises, or answers 200 with a body that the parser
  rejects.\<close>

definition query_fails ::
  "(jsstring \<Rightarrow> js_error + (jsstring \<times> jv) list) \<Rightarrow> (nat \<Rightarrow> jsstring \<Rightarrow> js_error + FetchResult) \<Rightarrow>
   jsstring \<Rightarrow> bool" where
  "query_fails xml_parse fetchLawList query \<longleftrightarrow>
     (case fetchLawList 1 query of
        Inl e \<Rightarrow> True
      | Inr result \<Rightarrow> status result = 200 \<and> isl (xml_parse (body result)))"

text \<open>The check itself fails: the database file is missing, opening or querying it
  raises, reading the cached index raises, or a query fails.\<close>

definition check_fails ::
  "(jsstring \<Rightarrow> js_error + (jsstring \<times> jv) list) \<Rightarrow> (nat \<Rightarrow> jsstring \<Rightarrow> js_error + FetchResult) \<Rightarrow>
   check_env \<Rightarrow> bool" where
  "check_fails xml_parse fetchLawList env \<longleftrightarrow>
     \<not> dbExists env \<or> isl (localIds env) \<or> indexError env \<noteq> None \<or>
     list_ex (query_fails xml_parse fetchLawList) KEY_QUERIES"

text \<open>
  A sample run of the checker: the first query answers 200 with a listing of the laws
  numbered X and Z, the other queries answer 500; the local store holds X and Y, or Z and
  X, or is missing.
\<close>

definition entry_X :: LawIndexEntry where
  "entry_X = \<lparr> title = ascii ''Law X'', lawId = ascii ''10'', lawNumber = ascii ''X'',
                promulgationDate = [], enforcementDate = [], lawType = [],
                url = ascii ''https://www.law.go.kr/LSW/lsInfoP.do?lsiSeq=10'' \<rparr>"

definition entry_Z :: LawIndexEntry where
  "entry_Z = \<lparr> title = ascii ''Law Z'', lawId = ascii ''30'', lawNumber = ascii ''Z'',
                promulgationDate = [], enforcementDate = [], lawType = [],
                url = ascii ''https://www.law.go.kr/LSW/lsInfoP.do?lsiSeq=30'' \<rparr>"

definition node_X :: jv where
  "node_X = JObj [(ko_beopryeongmyeonghangeul, JStr (ascii ''Law X'')),
                  (ko_beopryeongilryeonbeonho, JNum (ascii ''10'')),
                  (ko_beopryeongbeonho, JStr (ascii ''X''))]"

definition node_Z :: jv where
  "node_Z = JObj [(ko_beopryeongmyeonghangeul, JStr (ascii ''Law Z'')),
                  (ko_beopryeongilryeonbeonho, JNum (ascii ''30'')),
                  (ko_beopryeongbeonho, JStr (ascii ''Z''))]"

definition listing_XZ :: "(jsstring \<times> jv) list" where
  "listing_XZ = [(ascii ''totalCnt'', JNum (ascii ''2'')), (ascii ''law'', JArr [node_X, node_Z])]"

definition xml_listing_XZ :: "jsstring \<Rightarrow> js_error + (jsstring \<times> jv) list" where
  "xml_listing_XZ x = Inr listing_XZ"

definition first_query_only :: "nat \<Rightarrow> jsstring \<Rightarrow> js_error + FetchResult" where
  "first_query_only page query =
     (if query = [0xAC1C, 0xC778, 0xC815, 0xBCF4]
      then Inr \<lparr> status = 200, body = ascii ''<LawSearch/>'', contentType = ascii ''text/xml'' \<rparr>
      else Inr \<lparr> status = 500, body = [], contentType = [] \<rparr>)"

definition env_XY :: check_env where
  "env_XY = \<lparr> dbExists = True, localIds = Inr [ascii ''act-X'', ascii ''act-Y''], indexError = None \<rparr>"

definition env_XZ :: check_env where
  "env_XZ = \<lparr> dbExists = True, localIds = Inr [ascii ''act-Z'', ascii ''act-X''], indexError = None \<rparr>"

definition env_no_db :: check_env where
  "env_no_db = \<lparr> dbExists = False, localIds = Inr [], indexError = None \<rparr>"

text \<open>The map \<open>byRef\<close> is keyed by the reference of its values, each key once.\<close>

definition keyed_by_ref :: "(jsstring \<times> ProvisionSeed) list \<Rightarrow> bool" where
  "keyed_by_ref byRef \<longleftrightarrow>
     distinct (map fst byRef) \<and> list_all (\<lambda>kv. s_provision_ref (snd kv) = fst kv) byRef"

text \<open>What \<open>dedupeProvisions\<close> keeps for an incoming provision that beats the kept one.\<close>

definition replacement :: "ProvisionSeed \<Rightarrow> ProvisionSeed \<Rightarrow> ProvisionSeed" where
  "replacement existing provision =
     provision \<lparr> s_provision_ref := trim (s_provision_ref provision),
                 s_title := (case s_title provision of Some t \<Rightarrow> Some t | None \<Rightarrow> s_title existing) \<rparr>"

text \<open>Sample provisions that share the reference \<open>art-1\<close> once it is trimmed.\<close>

definition prov_A :: ProvisionSeed where
  "prov_A = \<lparr> s_provision_ref = ascii ''art-1'', s_chapter = None, s_section = ascii ''1'',
               s_title = Some (ascii ''Purpose''), s_content = ascii ''A'', s_content_en = None,
               s_metadata = None \<rparr>"

definition prov_ABCDE :: ProvisionSeed where
  "prov_ABCDE = \<lparr> s_provision_ref = ascii '' art-1 '', s_chapter = None, s_section = ascii ''1'',
               s_title = None, s_content = ascii ''ABCDE'', s_content_en = None,
               s_metadata = None \<rparr>"

definition long_untitled :: ProvisionSeed where
  "long_untitled = \<lparr> s_provision_ref = ascii ''art-1'', s_chapter = None, s_section = ascii ''1'',
               s_title = None, s_content = ascii ''ABCDE'', s_content_en = None,
               s_metadata = None \<rparr>"

text \<open>
  The fetch of a law leaves a seed whose law number is the entry's: it answers 404 (the
  stub), or 200 with a document that carries that number.
\<close>

definition yields_seed ::
  "(jsstring \<Rightarrow> js_error + (jsstring \<times> jv) list) \<Rightarrow> (jsstring \<Rightarrow> js_error + FetchResult) \<Rightarrow>
   LawIndexEntry \<Rightarrow> bool" where
  "yields_seed xml_parse fetchLawDetail law \<longleftrightarrow>
     (case fetchLawDetail (lawId law) of
        Inl e \<Rightarrow> False
      | Inr result \<Rightarrow>
          status result = 404 \<or>
          status result = 200 \<and>
            (case xml_parse (body result) of
               Inl e \<Rightarrow> False
             | Inr tree \<Rightarrow> law_number (parseLawXml tree (lawId law)) = lawNumber law))"

text \<open>The seed directory as the builder reads it: each file with the seed that its JSON
  holds.\<close>

definition seeds_on_disk :: "ingest_state \<Rightarrow> (jsstring \<times> DocumentSeed) list" where
  "seeds_on_disk st = map (\<lambda>f. (fst f, seed_of_law (snd f))) (seedDir st)"

text \<open>A second sample entry: another upstream id, the same law number.\<close>

definition ex_entry2 :: LawIndexEntry where
  "ex_entry2 = ex_entry \<lparr> lawId := ascii ''2'',
                           url := ascii ''https://www.law.go.kr/LSW/lsInfoP.do?lsiSeq=2'' \<rparr>"

text \<open>
  The callback \<open>isArray\<close> of the parser's configuration: the tag names whose value
  \<open>XMLParser.parse\<close> returns as an array, however often the tag occurs. The fourth
  name is U+BAA9 (mok).
\<close>

definition isArray :: "jsstring \<Rightarrow> bool" where
  "isArray name \<longleftrightarrow>
     name \<in> set [ko_jomundanwi, ko_hang, ko_ho, [0xBAA9], ascii ''entry'', ascii ''law'', ko_beopryeong]"

definition is_array :: "jv \<Rightarrow> bool" where
  "is_array v = (case v of JArr xs \<Rightarrow> True | _ \<Rightarrow> False)"

text \<open>A tree as the configured parser returns it: at every depth, the value under a
  name of \<open>isArray\<close> is an array.\<close>

fun respects_isArray :: "jv \<Rightarrow> bool" where
  "respects_isArray (JObj kvs) =
     list_all (\<lambda>kv. (if isArray (fst kv) then is_array (snd kv) else True) \<and> respects_isArray (snd kv)) kvs"
| "respects_isArray (JArr xs) = list_all respects_isArray xs"
| "respects_isArray v = True"

text \<open>
  The tree of a document in the shape that \<open>parseLawXml\<close> reads, a root element named
  U+BC95 U+B839 with the law number N1 and a title among its children: the configured
  parser wraps the root in an array.
\<close>

definition wrapped_law :: "(jsstring \<times> jv) list" where
  "wrapped_law =
     [(ko_beopryeong,
       JArr [JObj [(ko_beopryeongbeonho, JStr (ascii ''N1'')),
                   (ko_beopryeongmyeong_hangeul, JStr (ascii ''Act''))]])]"

section \<open>Properties of whitespace normalisation\<close>

lemma all_dropWhile_iff: "(\<forall>x\<in>set (dropWhile P s). P x) \<longleftrightarrow> (\<forall>x\<in>set s. P x)"
  by (induction s) auto

lemma trim_Nil_iff: "trim s = [] \<longleftrightarrow> (\<forall>c\<in>set s. is_ws c)"
  by (simp add: trim_def all_dropWhile_iff)

lemma rev_dropWhile_rev:
  "rev (dropWhile P (rev u)) = take (length u - length (takeWhile P (rev u))) u"
  by (simp add: dropWhile_eq_drop rev_drop)

lemma trim_as_slice: "\<exists>m n. trim s = take n (drop m s)"
proof -
  have "trim s = take (length (dropWhile is_ws s) - length (takeWhile is_ws (rev (dropWhile is_ws s))))
                   (dropWhile is_ws s)"
    unfolding trim_def by (rule rev_dropWhile_rev)
  also have "dropWhile is_ws s = drop (length (takeWhile is_ws s)) s"
    by (rule dropWhile_eq_drop)
  finally show ?thesis by blast
qed

lemma set_trim_subset: "set (trim s) \<subseteq> set s"
proof -
  obtain m n where "trim s = take n (drop m s)" using trim_as_slice by blast
  then show ?thesis by (metis set_take_subset set_drop_subset subset_trans)
qed

lemma trim_hd: "trim s \<noteq> [] \<Longrightarrow> \<not> is_ws (hd (trim s))"
proof -
  assume ne: "trim s \<noteq> []"
  define u where "u = dropWhile is_ws s"
  define k where "k = length (takeWhile is_ws (rev u))"
  have t: "trim s = take (length u - k) u"
    unfolding trim_def u_def[symmetric] k_def by (rule rev_dropWhile_rev)
  then have "u \<noteq> []" "0 < length u - k" using ne by auto
  then have "hd (trim s) = hd u" using t by (cases u) auto
  moreover have "\<not> is_ws (hd u)" using \<open>u \<noteq> []\<close> hd_dropWhile[of is_ws s] by (simp add: u_def)
  ultimately show ?thesis by simp
qed

lemma trim_last: "trim s \<noteq> [] \<Longrightarrow> \<not> is_ws (last (trim s))"
proof -
  assume ne: "trim s \<noteq> []"
  then have "dropWhile is_ws (rev (dropWhile is_ws s)) \<noteq> []" by (simp add: trim_def)
  then have "\<not> is_ws (hd (dropWhile is_ws (rev (dropWhile is_ws s))))" by (rule hd_dropWhile)
  then show ?thesis using ne by (simp add: trim_def last_rev)
qed

lemma collapse_ws_keeps: "c \<in> set s \<Longrightarrow> \<not> is_ws c \<Longrightarrow> c \<in> set (collapse_ws s)"
proof (induction s rule: collapse_ws.induct)
  case 1
  then show ?case by simp
next
  case (2 d ds)
  show ?case
  proof (cases "is_ws d")
    case True
    then have "c \<in> set ds" using 2(3,4) by auto
    then have "c \<in> set (dropWhile is_ws ds)" using 2(4)
      by (induction ds) auto
    then show ?thesis using 2(1)[OF True] 2(4) True by simp
  next
    case False
    then show ?thesis using 2(2)[OF False] 2(3,4) by auto
  qed
qed

lemma collapse_ws_only_space: "c \<in> set (collapse_ws s) \<Longrightarrow> is_ws c \<Longrightarrow> c = 32"
proof (induction s rule: collapse_ws.induct)
  case 1
  then show ?case by simp
next
  case (2 d ds)
  show ?case
  proof (cases "is_ws d")
    case True
    then show ?thesis using 2(1)[OF True] 2(3,4) by auto
  next
    case False
    then show ?thesis using 2(2)[OF False] 2(3,4) by auto
  qed
qed

lemma collapse_ws_no_pair:
  "Suc i < length (collapse_ws s) \<Longrightarrow> \<not> (is_ws (collapse_ws s ! i) \<and> is_ws (collapse_ws s ! Suc i))"
proof (induction s arbitrary: i rule: collapse_ws.induct)
  case 1
  then show ?case by simp
next
  case (2 c cs)
  show ?case
  proof (cases "is_ws c")
    case True
    let ?r = "dropWhile is_ws cs"
    have eq: "collapse_ws (c # cs) = 32 # collapse_ws ?r" using True by simp
    show ?thesis
    proof (cases i)
      case 0
      have "collapse_ws ?r \<noteq> []" using 2(3) eq 0 by auto
      then have "?r \<noteq> []" by (metis collapse_ws.simps(1))
      then obtain d ds where r: "?r = d # ds" by (cases ?r) auto
      have "\<not> is_ws d" using hd_dropWhile[of is_ws cs] r by auto
      then have "collapse_ws ?r ! 0 = d" using r by simp
      then show ?thesis using eq 0 \<open>\<not> is_ws d\<close> by simp
    next
      case (Suc j)
      then show ?thesis using 2(1)[OF True, of j] 2(3) eq by simp
    qed
  next
    case False
    have eq: "collapse_ws (c # cs) = c # collapse_ws cs" using False by simp
    show ?thesis
    proof (cases i)
      case 0
      then show ?thesis using eq False by simp
    next
      case (Suc j)
      then show ?thesis using 2(2)[OF False, of j] 2(3) eq by simp
    qed
  qed
qed

lemma slice_no_pair:
  assumes "\<And>i. Suc i < length r \<Longrightarrow> \<not> (is_ws (r ! i) \<and> is_ws (r ! Suc i))"
    and "Suc i < length (take n (drop m r))"
  shows "\<not> (is_ws (take n (drop m r) ! i) \<and> is_ws (take n (drop m r) ! Suc i))"
proof -
  have a: "Suc i < n" "Suc (m + i) < length r" using assms(2) by auto
  have "take n (drop m r) ! i = r ! (m + i)" "take n (drop m r) ! Suc i = r ! Suc (m + i)"
    using a by auto
  then show ?thesis using assms(1)[of "m + i"] a by simp
qed

text \<open>What \<open>s.replace(/\s+/g, ' ').trim()\<close> returns on a string that is not blank.\<close>

lemma normalised_text:
  assumes "trim s \<noteq> []"
  defines "r \<equiv> trim (collapse_ws s)"
  shows "r \<noteq> []"
    and "\<And>c. c \<in> set r \<Longrightarrow> is_ws c \<Longrightarrow> c = 32"
    and "\<And>i. Suc i < length r \<Longrightarrow> \<not> (is_ws (r ! i) \<and> is_ws (r ! Suc i))"
    and "\<not> is_ws (hd r)" and "\<not> is_ws (last r)"
proof -
  obtain c where c: "c \<in> set s" "\<not> is_ws c" using assms(1) by (auto simp: trim_Nil_iff)
  then have "c \<in> set (collapse_ws s)" by (rule collapse_ws_keeps)
  then show ne: "r \<noteq> []" using c(2) by (auto simp: r_def trim_Nil_iff)
  show "\<And>c. c \<in> set r \<Longrightarrow> is_ws c \<Longrightarrow> c = 32"
    using set_trim_subset[of "collapse_ws s"] collapse_ws_only_space[of _ s] by (auto simp: r_def)
  obtain m n where mn: "r = take n (drop m (collapse_ws s))"
    using trim_as_slice[of "collapse_ws s"] by (auto simp: r_def)
  show "\<And>i. Suc i < length r \<Longrightarrow> \<not> (is_ws (r ! i) \<and> is_ws (r ! Suc i))"
    unfolding mn by (rule slice_no_pair[OF collapse_ws_no_pair])
  show "\<not> is_ws (hd r)" using ne trim_hd unfolding r_def by blast
  show "\<not> is_ws (last r)" using ne trim_last unfolding r_def by blast
qed

section \<open>Properties of the date normaliser\<close>

lemma formatDate_date8:
  assumes "is_date8 s"
  shows "formatDate s = take 4 s @ ascii ''-'' @ take 2 (drop 4 s) @ ascii ''-'' @ drop 6 s"
proof -
  have len: "length s = 8" and dig: "\<forall>c\<in>set s. is_digit c"
    using assms by (simp_all add: is_date8_def list_all_iff)
  have f: "filter is_digit s = s" using dig by (simp add: filter_id_conv)
  have "s \<noteq> []" using len by auto
  then show ?thesis using len f by (simp add: formatDate_def slice_def Let_def)
qed

lemma formatDate_eq:
  "formatDate s =
     (if 8 \<le> length s \<and> length (filter is_digit s) = 8
      then take 4 (filter is_digit s) @ ascii ''-'' @ take 2 (drop 4 (filter is_digit s)) @ ascii ''-''
             @ drop 6 (filter is_digit s)
      else s)"
  by (auto simp: formatDate_def slice_def Let_def)

text \<open>
  C8, as the code has it. An 8-digit numeric date string is rewritten to the hyphenated
  form. So is every string of at least 8 code units that holds exactly 8 ASCII digits,
  whatever stands between them: the result is built from the digits alone. Every other
  string is returned unchanged. The function is total: it raises on no string.
\<close>

theorem formatDate_shapes:
  "(is_date8 s \<longrightarrow>
      formatDate s = take 4 s @ ascii ''-'' @ take 2 (drop 4 s) @ ascii ''-'' @ drop 6 s) \<and>
   (8 \<le> length s \<and> length (filter is_digit s) = 8 \<longrightarrow>
      formatDate s = take 4 (filter is_digit s) @ ascii ''-'' @ take 2 (drop 4 (filter is_digit s))
                       @ ascii ''-'' @ drop 6 (filter is_digit s)) \<and>
   (length s < 8 \<or> length (filter is_digit s) \<noteq> 8 \<longrightarrow> formatDate s = s)"
  using formatDate_date8[of s] formatDate_eq[of s] by auto

theorem formatDate_shapes_witness:
  "is_date8 (ascii ''20200115'') \<and>
   formatDate (ascii ''20200115'') = ascii ''2020-01-15'' \<and>
   formatDate (ascii ''2020.01.15'') = ascii ''2020-01-15'' \<and>
   formatDate (ascii ''2020-1-5'') = ascii ''2020-1-5'' \<and>
   formatDate (ascii ''n/a'') = ascii ''n/a''"
  using formatDate_shapes[of "ascii ''20200115''"] formatDate_shapes[of "ascii ''2020.01.15''"]
    formatDate_shapes[of "ascii ''2020-1-5''"] formatDate_shapes[of "ascii ''n/a''"]
  by (simp add: is_digit_def is_date8_def)

text \<open>
  The claim as the specification words it fails: a dotted date is not an 8-digit numeric
  string, and it is not returned unchanged.
\<close>

theorem formatDate_other_shape_changed:
  "\<not> is_date8 (ascii ''2020.01.15'') \<and>
   formatDate (ascii ''2020.01.15'') = ascii ''2020-01-15'' \<and>
   formatDate (ascii ''2020.01.15'') \<noteq> ascii ''2020.01.15''"
  by (simp add: formatDate_def slice_def is_digit_def is_date8_def)

section \<open>Properties of the law document parser\<close>

lemma foldl_add_item: "foldl add_item acc items = acc @ concat (map item_line items)"
  by (induction items arbitrary: acc) (simp_all add: add_item_def item_line_def Let_def)

lemma add_para_lines: "add_para acc para = acc @ para_lines para"
  by (simp add: add_para_def para_lines_def Let_def foldl_add_item)

lemma foldl_add_para: "foldl add_para acc paras = acc @ concat (map para_lines paras)"
  by (induction paras arbitrary: acc) (simp_all add: add_para_lines)

lemma full_content_flat: "full_content article = flat_text article"
  by (simp add: full_content_def flat_text_def foldl_add_para)

lemma parse_article_Some:
  "parse_article article = Some p \<Longrightarrow>
     emits_provision article \<and> content p = trim (collapse_ws (flat_text article))"
  by (auto simp: parse_article_def emits_provision_def full_content_flat Let_def split: if_splits)

lemma parse_article_None: "\<not> emits_provision article \<Longrightarrow> parse_article article = None"
  by (auto simp: parse_article_def emits_provision_def full_content_flat Let_def)

lemma parse_article_emits:
  "emits_provision article \<Longrightarrow>
     \<exists>p. parse_article article = Some p \<and> content p = trim (collapse_ws (flat_text article))"
  by (auto simp: parse_article_def emits_provision_def full_content_flat Let_def)

lemma provisions_parseLawXml:
  "provisions (parseLawXml parsed lid) = List.map_filter parse_article (articleList_of (law_root parsed))"
  by (simp add: parseLawXml_def Let_def)

lemma map_content_map_filter:
  "map content (List.map_filter parse_article arts) =
     map (\<lambda>a. trim (collapse_ws (flat_text a))) (filter emits_provision arts)"
proof (induction arts)
  case Nil
  then show ?case by simp
next
  case (Cons a arts)
  show ?case
  proof (cases "emits_provision a")
    case True
    then obtain p where "parse_article a = Some p" "content p = trim (collapse_ws (flat_text a))"
      using parse_article_emits by blast
    then show ?thesis using True Cons by simp
  next
    case False
    then show ?thesis using parse_article_None[OF False] Cons by simp
  qed
qed

lemma in_provisions:
  assumes "p \<in> set (provisions (parseLawXml parsed lid))"
  obtains article where "article \<in> set (articleList_of (law_root parsed))" "parse_article article = Some p"
  using assms by (auto simp: provisions_parseLawXml List.map_filter_def)

lemma ex_flat: "flat_text ex_article = [65, 10, 66, 10, 32, 32, 67]"
  by (simp add: flat_text_def ex_article_def articleContent_of_def paraList_of_def para_lines_def
      paraContent_of_def itemList_of_def item_line_def itemContent_of_def nc_def as_list_def
      text_of_def trim_def is_ws_def)

lemma ex_arts: "articleList_of (law_root ex_law) = [ex_article]"
  by (simp add: articleList_of_def law_root_def ex_law_def nc_def as_list_def)

lemma ex_emits: "emits_provision ex_article"
  unfolding emits_provision_def ex_flat
  by (simp add: ex_article_def articleNumber_of_def nc_def text_of_def trim_def is_ws_def)

lemma ex_stored: "trim (collapse_ws (flat_text ex_article)) = ascii ''A B C''"
  by (simp add: ex_flat trim_def is_ws_def)

text \<open>A second sample: an article with a number whose only content is blank.\<close>

lemma blank_article_content:
  "trim (full_content (JObj [(ko_jomunbeonho, JStr (ascii ''2'')), (ko_jomunnaeyong, JStr (ascii ''  ''))])) = []"
  by (simp add: full_content_def articleContent_of_def paraList_of_def nc_def as_list_def
      text_of_def trim_def is_ws_def)

lemma ex_contents: "map content (provisions (parseLawXml ex_law lid)) = [ascii ''A B C'']"
  unfolding provisions_parseLawXml map_content_map_filter
  by (simp add: ex_arts ex_emits ex_stored)

text \<open>
  C3, as the code has it. The provisions of \<open>parseLawXml\<close> are, in order, those of the
  articles that emit one, and the content of each is the flattened text of its article
  (own content, a line feed before each non-blank paragraph, a line feed and two spaces
  before each non-blank item) after \<open>replace(/\s+/g, ' ').trim()\<close>: the line feeds and
  the indentation become single spaces, so the stored content holds no line feed.
\<close>

theorem parseLawXml_content_flattened:
  "map content (provisions (parseLawXml parsed lid)) =
     map (\<lambda>a. trim (collapse_ws (flat_text a)))
       (filter emits_provision (articleList_of (law_root parsed))) \<and>
   (p \<in> set (provisions (parseLawXml parsed lid)) \<longrightarrow> 10 \<notin> set (content p))"
proof (intro conjI impI)
  show "map content (provisions (parseLawXml parsed lid)) =
     map (\<lambda>a. trim (collapse_ws (flat_text a)))
       (filter emits_provision (articleList_of (law_root parsed)))"
    by (simp add: provisions_parseLawXml map_content_map_filter)
next
  assume "p \<in> set (provisions (parseLawXml parsed lid))"
  then obtain article where a: "parse_article article = Some p" by (rule in_provisions)
  then have e: "emits_provision article" and c: "content p = trim (collapse_ws (flat_text article))"
    using parse_article_Some by blast+
  have "trim (flat_text article) \<noteq> []" using e by (simp add: emits_provision_def)
  then have "\<And>x. x \<in> set (content p) \<Longrightarrow> is_ws x \<Longrightarrow> x = 32"
    unfolding c by (rule normalised_text(2))
  moreover have "is_ws 10" by (simp add: is_ws_def)
  ultimately show "10 \<notin> set (content p)" by fastforce
qed

theorem parseLawXml_content_flattened_witness:
  "map content (provisions (parseLawXml ex_law (ascii ''1''))) = [ascii ''A B C''] \<and>
   hd (provisions (parseLawXml ex_law (ascii ''1''))) \<in> set (provisions (parseLawXml ex_law (ascii ''1''))) \<and>
   10 \<notin> set (content (hd (provisions (parseLawXml ex_law (ascii ''1'')))))"
proof -
  have m: "map content (provisions (parseLawXml ex_law (ascii ''1''))) = [ascii ''A B C'']"
    using parseLawXml_content_flattened[of ex_law "ascii ''1''"]
    by (simp add: ex_arts ex_emits ex_stored)
  then have "provisions (parseLawXml ex_law (ascii ''1'')) \<noteq> []" by auto
  then have h: "hd (provisions (parseLawXml ex_law (ascii ''1''))) \<in> set (provisions (parseLawXml ex_law (ascii ''1'')))"
    by simp
  show ?thesis
    using m h parseLawXml_content_flattened[of ex_law "ascii ''1''" "hd (provisions (parseLawXml ex_law (ascii ''1'')))"]
    by blast
qed

text \<open>
  The claim as the specification words it fails on the sample document: the flattened
  text of its article has two line feeds, the stored content has none and is another
  string.
\<close>

theorem stored_content_not_multiline:
  "articleList_of (law_root ex_law) = [ex_article] \<and>
   flat_text ex_article = ascii ''A'' @ [10] @ ascii ''B'' @ [10, 32, 32] @ ascii ''C'' \<and>
   map content (provisions (parseLawXml ex_law (ascii ''1''))) = [ascii ''A B C''] \<and>
   map content (provisions (parseLawXml ex_law (ascii ''1''))) \<noteq> [flat_text ex_article]"
  by (simp add: ex_arts ex_flat ex_contents)

text \<open>
  C10. Every provision of \<open>parseLawXml\<close> has content that is not empty, in which every
  whitespace character is a plain space (so no line feed or other line terminator),
  no two neighbours are both whitespace, and neither end is whitespace. The provisions
  are exactly what the articles emit, and an article whose assembled content is blank
  emits none.
\<close>

theorem parseLawXml_content_normalised:
  "(p \<in> set (provisions (parseLawXml parsed lid)) \<longrightarrow>
      content p \<noteq> [] \<and> 10 \<notin> set (content p) \<and>
      (\<forall>c. c \<in> set (content p) \<and> is_ws c \<longrightarrow> c = 32) \<and>
      (\<forall>i. Suc i < length (content p) \<longrightarrow> \<not> (is_ws (content p ! i) \<and> is_ws (content p ! Suc i))) \<and>
      \<not> is_ws (hd (content p)) \<and> \<not> is_ws (last (content p))) \<and>
   provisions (parseLawXml parsed lid) = List.map_filter parse_article (articleList_of (law_root parsed)) \<and>
   (trim (full_content article) = [] \<longrightarrow> parse_article article = None)"
proof (intro conjI impI)
  assume "p \<in> set (provisions (parseLawXml parsed lid))"
  then obtain a where a: "parse_article a = Some p" by (rule in_provisions)
  then have e: "emits_provision a" and c: "content p = trim (collapse_ws (flat_text a))"
    using parse_article_Some by blast+
  have ne: "trim (flat_text a) \<noteq> []" using e by (simp add: emits_provision_def)
  show "content p \<noteq> []" unfolding c using ne by (rule normalised_text(1))
  have sp: "\<And>x. x \<in> set (content p) \<Longrightarrow> is_ws x \<Longrightarrow> x = 32"
    unfolding c using ne by (rule normalised_text(2))
  moreover have "is_ws 10" by (simp add: is_ws_def)
  ultimately show "10 \<notin> set (content p)" by fastforce
  show "\<forall>c. c \<in> set (content p) \<and> is_ws c \<longrightarrow> c = 32" using sp by blast
  show "\<forall>i. Suc i < length (content p) \<longrightarrow> \<not> (is_ws (content p ! i) \<and> is_ws (content p ! Suc i))"
    unfolding c using normalised_text(3)[OF ne] by blast
  show "\<not> is_ws (hd (content p))" unfolding c using ne by (rule normalised_text(4))
  show "\<not> is_ws (last (content p))" unfolding c using ne by (rule normalised_text(5))
next
  show "provisions (parseLawXml parsed lid) = List.map_filter parse_article (articleList_of (law_root parsed))"
    by (rule provisions_parseLawXml)
next
  assume "trim (full_content article) = []"
  then show "parse_article article = None"
    by (simp add: parse_article_def Let_def)
qed

theorem parseLawXml_content_normalised_witness:
  "hd (provisions (parseLawXml ex_law (ascii ''1''))) \<in> set (provisions (parseLawXml ex_law (ascii ''1''))) \<and>
   content (hd (provisions (parseLawXml ex_law (ascii ''1'')))) = ascii ''A B C'' \<and>
   trim (full_content (JObj [(ko_jomunbeonho, JStr (ascii ''2'')), (ko_jomunnaeyong, JStr (ascii ''  ''))])) = [] \<and>
   parse_article (JObj [(ko_jomunbeonho, JStr (ascii ''2'')), (ko_jomunnaeyong, JStr (ascii ''  ''))]) = None"
proof -
  let ?ps = "provisions (parseLawXml ex_law (ascii ''1''))"
  have m: "map content ?ps = [ascii ''A B C'']" by (rule ex_contents)
  then have ne: "?ps \<noteq> []" by auto
  then have h: "hd ?ps \<in> set ?ps" by simp
  have c: "content (hd ?ps) = ascii ''A B C''" using m ne by (cases ?ps) auto
  show ?thesis
    using h c blank_article_content
      parseLawXml_content_normalised[of "hd ?ps" ex_law "ascii ''1''"
        "JObj [(ko_jomunbeonho, JStr (ascii ''2'')), (ko_jomunnaeyong, JStr (ascii ''  ''))]"]
    by blast
qed

section \<open>Properties of the document id\<close>

lemma getprop_JArr: "getprop (JArr xs) k = JUndefined"
  by simp

lemma map_of_respects:
  "list_all (\<lambda>kv. (if isArray (fst kv) then is_array (snd kv) else True) \<and> respects_isArray (snd kv)) kvs \<Longrightarrow>
   map_of kvs k = Some v \<Longrightarrow> isArray k \<Longrightarrow> is_array v"
  by (induction kvs) (auto split: if_splits)

lemma wrapped_root:
  assumes "respects_isArray (JObj parsed)"
    and "ko_beopryeong \<in> fst ` set parsed \<or> ascii ''law'' \<in> fst ` set parsed"
  shows "\<exists>xs. law_root parsed = JArr xs"
proof -
  have r: "list_all (\<lambda>kv. (if isArray (fst kv) then is_array (snd kv) else True) \<and> respects_isArray (snd kv)) parsed"
    using assms(1) by simp
  have ia: "isArray ko_beopryeong" "isArray (ascii ''law'')" by (simp_all add: isArray_def)
  show ?thesis
  proof (cases "map_of parsed ko_beopryeong")
    case (Some v)
    then have "is_array v" using map_of_respects[OF r Some ia(1)] by simp
    then obtain xs where "v = JArr xs" by (cases v) (auto simp: is_array_def)
    then show ?thesis using Some by (simp add: law_root_def nc_def)
  next
    case None
    then have "ko_beopryeong \<notin> fst ` set parsed" by (simp add: map_of_eq_None_iff)
    then have "ascii ''law'' \<in> fst ` set parsed" using assms(2) by blast
    then obtain v where l: "map_of parsed (ascii ''law'') = Some v"
      by (cases "map_of parsed (ascii ''law'')") (auto simp: map_of_eq_None_iff)
    then have "is_array v" using map_of_respects[OF r l ia(2)] by simp
    then obtain xs where "v = JArr xs" by (cases v) (auto simp: is_array_def)
    then show ?thesis using None l by (simp add: law_root_def nc_def)
  qed
qed

lemma text_of_undefined: "text_of JUndefined = []"
  by (simp add: text_of_def)

lemma parse_array_root:
  assumes "law_root parsed = JArr xs"
  shows "parseLawXml parsed lid =
           \<lparr> law_id = ascii ''act-'' @ lid, law_type = statute, law_title = [], title_en = [],
             short_name = [], law_number = [], law_status = in_force, issued_date = [],
             in_force_date = [],
             law_url = ascii ''https://www.law.go.kr/LSW/lsInfoP.do?lsiSeq='' @ lid,
             provisions = [] \<rparr>"
proof -
  have n: "nc JUndefined x = x" for x by (simp add: nc_def)
  have s: "buildShortName [] = []" by (simp add: buildShortName_def abbrevs_table_def trim_def)
  have t: "inferDocumentType [] = statute" by (simp add: inferDocumentType_def)
  have f: "formatDate [] = []" by (simp add: formatDate_def)
  have a: "articleList_of (JArr xs) = []" by (simp add: articleList_of_def n as_list_def)
  show ?thesis
    unfolding parseLawXml_def Let_def assms getprop_JArr n text_of_undefined s t f a
    by simp
qed

lemma wrapped_root_hides_number:
  assumes "respects_isArray (JObj parsed)"
    and "ko_beopryeong \<in> fst ` set parsed \<or> ascii ''law'' \<in> fst ` set parsed"
  shows "law_number (parseLawXml parsed lid) = [] \<and> law_id (parseLawXml parsed lid) = ascii ''act-'' @ lid"
proof -
  obtain xs where "law_root parsed = JArr xs" using wrapped_root[OF assms] by blast
  then show ?thesis by (simp add: parse_array_root)
qed

lemma wrapped_law_respects: "respects_isArray (JObj wrapped_law)"
  by (simp add: wrapped_law_def isArray_def is_array_def)

text \<open>
  C2 at a concrete input. The index entry has the law number N1 and the upstream id 1,
  and the document is the tree that the configured parser returns for a root element
  U+BC95 U+B839 that carries the same number N1. The stub of the orchestrator gets the id
  \<open>act-N1\<close>. \<open>parseLawXml\<close> takes the array that wraps the root for its \<open>root\<close>,
  reads no field from it, so finds no law number, and returns the id \<open>act-1\<close>: the two
  ids differ although both places apply the same rule. Lemma
  \<open>wrapped_root_hides_number\<close> shows the same for every tree of the configured parser
  whose root is named U+BC95 U+B839 or \<open>law\<close>.
\<close>

theorem wrapped_number_lost_to_parser:
  "respects_isArray (JObj wrapped_law) \<and>
   lawNumber ex_entry = ascii ''N1'' \<and> lawId ex_entry = ascii ''1'' \<and>
   law_id (minimalSeed ex_entry) = ascii ''act-N1'' \<and>
   law_number (parseLawXml wrapped_law (lawId ex_entry)) = [] \<and>
   law_id (parseLawXml wrapped_law (lawId ex_entry)) = ascii ''act-1'' \<and>
   law_id (minimalSeed ex_entry) \<noteq> law_id (parseLawXml wrapped_law (lawId ex_entry))"
proof -
  have r: "respects_isArray (JObj wrapped_law)" by (rule wrapped_law_respects)
  have k: "ko_beopryeong \<in> fst ` set wrapped_law \<or> ascii ''law'' \<in> fst ` set wrapped_law"
    by (simp add: wrapped_law_def)
  have p: "law_number (parseLawXml wrapped_law (lawId ex_entry)) = []"
    "law_id (parseLawXml wrapped_law (lawId ex_entry)) = ascii ''act-'' @ lawId ex_entry"
    using wrapped_root_hides_number[OF r k] by simp_all
  have e: "lawNumber ex_entry = ascii ''N1''" "lawId ex_entry = ascii ''1''"
    by (simp_all add: ex_entry_def)
  have m: "law_id (minimalSeed ex_entry) = ascii ''act-N1''"
    by (simp add: minimalSeed_def ex_entry_def)
  show ?thesis using r p e m by simp
qed

section \<open>Properties of the discovery parser\<close>













section \<open>Properties of the fetch client\<close>

declare fetch_attempts.simps [simp del]

lemma fetch_attempts_retryable:
  assumes "only_retryable upstream" "0 \<le> attempt" "attempt \<le> maxRetries"
  shows "fetch_attempts upstream u maxRetries attempt reqs slept =
           \<lparr> outcome = upstream (reqs + nat (maxRetries - attempt)),
             requests = reqs + nat (maxRetries - attempt) + 1,
             backoffs = slept @ map (\<lambda>k. 2 ^ (k + 1) * 1000) [nat attempt ..< nat maxRetries] \<rparr>"
  using assms
proof (induction upstream u maxRetries attempt reqs slept rule: fetch_attempts.induct)
  case (1 upstream u maxRetries attempt reqs slept)
  obtain response where r: "upstream reqs = Inr response" "status response = 429 \<or> status response \<ge> 500"
    using 1(2) unfolding only_retryable_def by blast
  show ?case
  proof (cases "attempt < maxRetries")
    case True
    have step: "fetch_attempts upstream u maxRetries attempt reqs slept =
        fetch_attempts upstream u maxRetries (attempt + 1) (Suc reqs) (slept @ [2 ^ nat (attempt + 1) * 1000])"
      using True r by (subst fetch_attempts.simps) auto
    have ih: "fetch_attempts upstream u maxRetries (attempt + 1) (Suc reqs) (slept @ [2 ^ nat (attempt + 1) * 1000]) =
        \<lparr> outcome = upstream (Suc reqs + nat (maxRetries - (attempt + 1))),
          requests = Suc reqs + nat (maxRetries - (attempt + 1)) + 1,
          backoffs = (slept @ [2 ^ nat (attempt + 1) * 1000]) @
             map (\<lambda>k. 2 ^ (k + 1) * 1000) [nat (attempt + 1) ..< nat maxRetries] \<rparr>"
      using 1(1)[OF _ r(1)] True r(2) 1(2,3) by auto
    have n1: "Suc reqs + nat (maxRetries - (attempt + 1)) = reqs + nat (maxRetries - attempt)"
      using True 1(3) by (simp add: nat_diff_distrib)
    have n2: "nat (attempt + 1) = Suc (nat attempt)" using 1(3) by (simp add: nat_add_distrib)
    have n3: "[nat attempt ..< nat maxRetries] = nat attempt # [Suc (nat attempt) ..< nat maxRetries]"
      using True 1(3) by (simp add: upt_conv_Cons)
    show ?thesis unfolding step ih n1 by (simp add: n2 n3)
  next
    case False
    then have eq: "attempt = maxRetries" using 1(4) by simp
    show ?thesis using r eq by (subst fetch_attempts.simps) auto
  qed
qed

lemma fetchWithRateLimit_retryable:
  assumes "only_retryable upstream" "0 \<le> maxRetries"
  shows "fetchWithRateLimit upstream u maxRetries =
           \<lparr> outcome = upstream (nat maxRetries),
             requests = nat maxRetries + 1,
             backoffs = map (\<lambda>k. 2 ^ (k + 1) * 1000) [0 ..< nat maxRetries] \<rparr>"
  unfolding fetchWithRateLimit_def
  using fetch_attempts_retryable[where attempt = 0 and reqs = 0 and slept = "[]" and u = u, OF assms(1) _ assms(2)]
  by simp

lemma fetch_attempts_errors_from_upstream:
  "0 \<le> maxRetries \<Longrightarrow> attempt \<le> maxRetries \<Longrightarrow>
   outcome (fetch_attempts upstream u maxRetries attempt reqs slept) = Inl e \<Longrightarrow> \<exists>n. upstream n = Inl e"
proof (induction upstream u maxRetries attempt reqs slept rule: fetch_attempts.induct)
  case (1 upstream u maxRetries attempt reqs slept)
  show ?case
  proof (cases "upstream reqs")
    case (Inl e')
    then show ?thesis using 1(3,4) by (subst (asm) fetch_attempts.simps) auto
  next
    case (Inr response)
    show ?thesis
    proof (cases "(status response = 429 \<or> status response \<ge> 500) \<and> attempt < maxRetries")
      case True
      then have "fetch_attempts upstream u maxRetries attempt reqs slept =
        fetch_attempts upstream u maxRetries (attempt + 1) (Suc reqs) (slept @ [2 ^ nat (attempt + 1) * 1000])"
        using Inr 1(3) by (subst fetch_attempts.simps) auto
      then show ?thesis using 1(1)[OF 1(3) Inr True 1(2)] True 1(4) by auto
    next
      case False
      then show ?thesis using Inr 1(3,4) by (subst (asm) fetch_attempts.simps) auto
    qed
  qed
qed

text \<open>
  C1 at a concrete input: every request is answered with status 500 and \<open>maxRetries\<close>
  is 3, its default. The call sends 4 requests, sleeps 2000, 4000 and 8000 milliseconds
  between them, and then returns the last response with status 500; it does not raise.
  The \<open>throw\<close> after the loop is not reached, since the last round of the loop falls
  through to its \<open>return\<close> (lemma \<open>fetchWithRateLimit_retryable\<close> shows the same for
  every such upstream and every \<open>maxRetries\<close> from 0 on).
\<close>

theorem exhausted_retries_return_last_response:
  "fetchWithRateLimit always_500 (ascii ''https://www.law.go.kr/DRF/lawService.do'') 3 =
     \<lparr> outcome = Inr \<lparr> status = 500, body = [], contentType = [] \<rparr>,
       requests = 4,
       backoffs = [2000, 4000, 8000] \<rparr>"
  by (simp add: fetchWithRateLimit_def fetch_attempts.simps always_500_def)

section \<open>Properties of the content phase\<close>

lemma map_of_map_set: "map_of (map_set k v kvs) k = Some v"
  by (induction kvs) auto

lemma map_set_keys: "fst ` set (map_set k v kvs) = insert k (fst ` set kvs)"
  by (induction kvs) auto

lemma process_law_404:
  assumes "seedFile_of law \<notin> fst ` set (seedDir st)"
    and "fetchLawDetail (lawId law) = Inr r" "status r = 404"
  shows "process_law xp fetchLawDetail st law =
           st \<lparr> seedDir := map_set (seedFile_of law) (minimalSeed law) (seedDir st),
                failed := failed st + 1, processed := processed st + 1 \<rparr>"
  using assms by (simp add: process_law_def Let_def)

lemma process_law_other_status:
  assumes "seedFile_of law \<notin> fst ` set (seedDir st)"
    and "fetchLawDetail (lawId law) = Inr r" "status r \<noteq> 200" "status r \<noteq> 404"
  shows "process_law xp fetchLawDetail st law =
           st \<lparr> failed := failed st + 1, processed := processed st + 1 \<rparr>"
  using assms by (simp add: process_law_def Let_def)

lemma process_law_fetch_raises:
  assumes "seedFile_of law \<notin> fst ` set (seedDir st)"
    and "fetchLawDetail (lawId law) = Inl e"
  shows "process_law xp fetchLawDetail st law =
           st \<lparr> failed := failed st + 1, processed := processed st + 1 \<rparr>"
  using assms by (simp add: process_law_def Let_def)

lemma process_law_parse_raises:
  assumes "seedFile_of law \<notin> fst ` set (seedDir st)"
    and "fetchLawDetail (lawId law) = Inr r" "status r = 200" "xp (body r) = Inl e"
  shows "process_law xp fetchLawDetail st law =
           st \<lparr> failed := failed st + 1, processed := processed st + 1 \<rparr>"
  using assms by (simp add: process_law_def Let_def)

text \<open>
  C6. A law whose seed file does not exist is fetched. On status 404 the round writes
  the stub under the law's file name, with no provisions and status \<open>in_force\<close>, and
  counts the law as failed and as processed. On any other status but 200, on an
  exception of the XML parser for a 200 response, and on an exception of the fetch, the
  seed directory is left as it was (so the file is still missing and the next run fetches
  the law again), and the law is counted as failed and as processed.
\<close>

theorem content_phase_failures:
  fixes xp fetchLawDetail st law
  defines "st' \<equiv> process_law xp fetchLawDetail st law"
  assumes "seedFile_of law \<notin> fst ` set (seedDir st)"
  shows
    "(fetchLawDetail (lawId law) = Inr r \<and> status r = 404 \<longrightarrow>
        map_of (seedDir st') (seedFile_of law) = Some (minimalSeed law) \<and>
        provisions (minimalSeed law) = [] \<and> law_status (minimalSeed law) = in_force \<and>
        failed st' = failed st + 1 \<and> processed st' = processed st + 1) \<and>
     (fetchLawDetail (lawId law) = Inr r \<and> status r \<noteq> 200 \<and> status r \<noteq> 404 \<or>
      fetchLawDetail (lawId law) = Inr r \<and> status r = 200 \<and> xp (body r) = Inl e \<or>
      fetchLawDetail (lawId law) = Inl e \<longrightarrow>
        seedDir st' = seedDir st \<and> seedFile_of law \<notin> fst ` set (seedDir st') \<and>
        failed st' = failed st + 1 \<and> processed st' = processed st + 1)"
proof (intro conjI impI)
  assume a: "fetchLawDetail (lawId law) = Inr r \<and> status r = 404"
  have eq: "st' = st \<lparr> seedDir := map_set (seedFile_of law) (minimalSeed law) (seedDir st),
                failed := failed st + 1, processed := processed st + 1 \<rparr>"
    unfolding st'_def using assms(2) a by (intro process_law_404) auto
  show "map_of (seedDir st') (seedFile_of law) = Some (minimalSeed law)"
    by (simp add: eq map_of_map_set)
  show "provisions (minimalSeed law) = []" by (simp add: minimalSeed_def)
  show "law_status (minimalSeed law) = in_force" by (simp add: minimalSeed_def)
  show "failed st' = failed st + 1" by (simp add: eq)
  show "processed st' = processed st + 1" by (simp add: eq)
next
  assume a: "fetchLawDetail (lawId law) = Inr r \<and> status r \<noteq> 200 \<and> status r \<noteq> 404 \<or>
      fetchLawDetail (lawId law) = Inr r \<and> status r = 200 \<and> xp (body r) = Inl e \<or>
      fetchLawDetail (lawId law) = Inl e"
  have eq: "st' = st \<lparr> failed := failed st + 1, processed := processed st + 1 \<rparr>"
    unfolding st'_def
    using a process_law_other_status[OF assms(2)] process_law_parse_raises[OF assms(2)]
      process_law_fetch_raises[OF assms(2)]
    by blast
  show "seedDir st' = seedDir st" by (simp add: eq)
  show "seedFile_of law \<notin> fst ` set (seedDir st')" using assms(2) by (simp add: eq)
  show "failed st' = failed st + 1" by (simp add: eq)
  show "processed st' = processed st + 1" by (simp add: eq)
qed


theorem content_phase_failures_witness:
  "seedFile_of ex_entry \<notin> fst ` set (seedDir fresh_run) \<and>
   map_of (seedDir (process_law xml_ex_law (respond 404) fresh_run ex_entry)) (seedFile_of ex_entry)
     = Some (minimalSeed ex_entry) \<and>
   failed (process_law xml_ex_law (respond 404) fresh_run ex_entry) = 1 \<and>
   processed (process_law xml_ex_law (respond 404) fresh_run ex_entry) = 1 \<and>
   seedDir (process_law xml_ex_law (respond 503) fresh_run ex_entry) = [] \<and>
   failed (process_law xml_ex_law (respond 503) fresh_run ex_entry) = 1 \<and>
   seedDir (process_law xml_raises (respond 200) fresh_run ex_entry) = [] \<and>
   failed (process_law xml_raises (respond 200) fresh_run ex_entry) = 1 \<and>
   seedDir (process_law xml_ex_law fetch_raises fresh_run ex_entry) = [] \<and>
   failed (process_law xml_ex_law fetch_raises fresh_run ex_entry) = 1"
proof -
  have h: "seedFile_of ex_entry \<notin> fst ` set (seedDir fresh_run)"
    by (simp add: fresh_run_def)
  have z: "seedDir fresh_run = []" "failed fresh_run = 0" "processed fresh_run = 0"
    by (simp_all add: fresh_run_def)
  have r: "respond 404 (lawId ex_entry) = Inr \<lparr> status = 404, body = [], contentType = [] \<rparr>"
    "respond 503 (lawId ex_entry) = Inr \<lparr> status = 503, body = [], contentType = [] \<rparr>"
    "respond 200 (lawId ex_entry) = Inr \<lparr> status = 200, body = [], contentType = [] \<rparr>"
    "xml_raises [] = Inl (Thrown (ascii ''invalid document''))"
    "fetch_raises (lawId ex_entry) = Inl (Thrown (ascii ''fetch failed''))"
    by (simp_all add: respond_def xml_raises_def fetch_raises_def)
  show ?thesis
    using h z
      content_phase_failures[OF h, where xp = xml_ex_law and fetchLawDetail = "respond 404"
        and r = "\<lparr> status = 404, body = [], contentType = [] \<rparr>"]
      content_phase_failures[OF h, where xp = xml_ex_law and fetchLawDetail = "respond 503"
        and r = "\<lparr> status = 503, body = [], contentType = [] \<rparr>"]
      content_phase_failures[OF h, where xp = xml_raises and fetchLawDetail = "respond 200"
        and r = "\<lparr> status = 200, body = [], contentType = [] \<rparr>"
        and e = "Thrown (ascii ''invalid document'')"]
      content_phase_failures[OF h, where xp = xml_ex_law and fetchLawDetail = fetch_raises
        and e = "Thrown (ascii ''fetch failed'')"]
    by (simp add: r del: ascii.simps)
qed

section \<open>Properties of the update checker\<close>

lemma fetchRecentEntries_from_fails:
  "isl (fetchRecentEntries_from xp fl acc queries) \<longleftrightarrow> list_ex (query_fails xp fl) queries"
proof (induction queries arbitrary: acc)
  case Nil
  then show ?case by simp
next
  case (Cons q queries)
  show ?case
  proof (cases "fl 1 q")
    case (Inl e)
    then show ?thesis by (simp add: query_fails_def)
  next
    case (Inr result)
    show ?thesis
    proof (cases "status result = 200")
      case True
      then show ?thesis using Inr Cons by (cases "xp (body result)") (simp_all add: query_fails_def)
    next
      case False
      then show ?thesis using Inr Cons by (simp add: query_fails_def)
    qed
  qed
qed

lemma fetchRecentEntries_fails:
  "isl (fetchRecentEntries xp fl) \<longleftrightarrow> list_ex (query_fails xp fl) KEY_QUERIES"
  unfolding fetchRecentEntries_def by (rule fetchRecentEntries_from_fails)

lemma new_hits_ids:
  "map document_id (new_hits localDocs recent) = filter (\<lambda>d. d \<notin> set localDocs) (map derived_id recent)"
  by (induction recent) (simp_all add: new_hits_def derived_id_def List.map_filter_def Let_def)

lemma new_hits_empty:
  "new_hits localDocs recent = [] \<longleftrightarrow> (\<forall>entry\<in>set recent. derived_id entry \<in> set localDocs)"
proof -
  have "new_hits localDocs recent = [] \<longleftrightarrow> map document_id (new_hits localDocs recent) = []"
    by simp
  also have "\<dots> \<longleftrightarrow> (\<forall>entry\<in>set recent. derived_id entry \<in> set localDocs)"
    unfolding new_hits_ids by (auto simp: filter_empty_conv)
  finally show ?thesis .
qed

text \<open>
  C7. The checker exits 2 when the check itself fails: the database file is missing,
  opening or querying it raises, reading the cached index raises, or for some query the
  fetch raises or the parser rejects a 200 response. Otherwise it exits 1 when some
  discovered entry's derived id is absent from the ids of the local store, and 0 when
  none is; the new laws it reports are exactly the derived ids that are absent, in the
  order of discovery. Nothing but the ids enters the comparison.
\<close>

theorem checker_exit_codes:
  "(check_fails xp fl env \<longrightarrow> exit_code (check_main xp fl env) = 2 \<and> newLaws (check_main xp fl env) = []) \<and>
   (\<not> check_fails xp fl env \<longrightarrow>
      (\<exists>localDocs recent. localIds env = Inr localDocs \<and> fetchRecentEntries xp fl = Inr recent \<and>
         map document_id (newLaws (check_main xp fl env)) =
           filter (\<lambda>d. d \<notin> set localDocs) (map derived_id recent) \<and>
         exit_code (check_main xp fl env) =
           (if \<exists>entry\<in>set recent. derived_id entry \<notin> set localDocs then 1 else 0)))"
proof (intro conjI impI)
  assume f: "check_fails xp fl env"
  show "exit_code (check_main xp fl env) = 2"
    using f fetchRecentEntries_fails[of xp fl]
    by (auto simp: check_main_def check_fails_def Let_def split: sum.splits option.splits)
  show "newLaws (check_main xp fl env) = []"
    using f fetchRecentEntries_fails[of xp fl]
    by (auto simp: check_main_def check_fails_def Let_def split: sum.splits option.splits)
next
  assume nf: "\<not> check_fails xp fl env"
  then obtain localDocs where l: "localIds env = Inr localDocs"
    by (cases "localIds env") (auto simp: check_fails_def)
  obtain recent where r: "fetchRecentEntries xp fl = Inr recent"
    using nf fetchRecentEntries_fails[of xp fl]
    by (cases "fetchRecentEntries xp fl") (auto simp: check_fails_def)
  have d: "dbExists env" "indexError env = None" using nf by (auto simp: check_fails_def)
  have m: "check_main xp fl env =
      (if new_hits localDocs recent \<noteq> [] then \<lparr> exit_code = 1, newLaws = new_hits localDocs recent \<rparr>
       else \<lparr> exit_code = 0, newLaws = new_hits localDocs recent \<rparr>)"
    using l r d by (simp add: check_main_def Let_def)
  have "newLaws (check_main xp fl env) = new_hits localDocs recent"
    unfolding m by simp
  then have "map document_id (newLaws (check_main xp fl env)) =
           filter (\<lambda>d. d \<notin> set localDocs) (map derived_id recent)"
    by (simp add: new_hits_ids)
  moreover have "exit_code (check_main xp fl env) =
           (if \<exists>entry\<in>set recent. derived_id entry \<notin> set localDocs then 1 else 0)"
    unfolding m using new_hits_empty[of localDocs recent] by auto
  ultimately show "\<exists>localDocs recent. localIds env = Inr localDocs \<and> fetchRecentEntries xp fl = Inr recent \<and>
         map document_id (newLaws (check_main xp fl env)) =
           filter (\<lambda>d. d \<notin> set localDocs) (map derived_id recent) \<and>
         exit_code (check_main xp fl env) =
           (if \<exists>entry\<in>set recent. derived_id entry \<notin> set localDocs then 1 else 0)"
    using l r by blast
qed


lemma parse_node_X: "parse_entry node_X = Some entry_X"
  by (simp add: parse_entry_def node_X_def entry_X_def nc_def text_of_def trim_def is_ws_def Let_def)

lemma parse_node_Z: "parse_entry node_Z = Some entry_Z"
  by (simp add: parse_entry_def node_Z_def entry_Z_def nc_def text_of_def trim_def is_ws_def Let_def)

lemma entries_listing_XZ: "entries (parseLawList listing_XZ) = [entry_X, entry_Z]"
  by (simp add: parseLawList_def listing_XZ_def nc_def as_list_def Let_def parse_node_X parse_node_Z)

lemma ex_fetchRecent: "fetchRecentEntries xml_listing_XZ first_query_only = Inr [entry_X, entry_Z]"
  by (simp add: fetchRecentEntries_def KEY_QUERIES_def first_query_only_def xml_listing_XZ_def
      entries_listing_XZ)

lemma ex_no_query_fails: "\<not> list_ex (query_fails xml_listing_XZ first_query_only) KEY_QUERIES"
  by (simp add: KEY_QUERIES_def query_fails_def first_query_only_def xml_listing_XZ_def)

lemma ex_derived: "derived_id entry_X = ascii ''act-X''" "derived_id entry_Z = ascii ''act-Z''"
  by (simp_all add: derived_id_def entry_X_def entry_Z_def)


theorem checker_exit_codes_witness:
  "\<not> check_fails xml_listing_XZ first_query_only env_XY \<and>
   map document_id (newLaws (check_main xml_listing_XZ first_query_only env_XY)) = [ascii ''act-Z''] \<and>
   exit_code (check_main xml_listing_XZ first_query_only env_XY) = 1 \<and>
   \<not> check_fails xml_listing_XZ first_query_only env_XZ \<and>
   exit_code (check_main xml_listing_XZ first_query_only env_XZ) = 0 \<and>
   check_fails xml_listing_XZ first_query_only env_no_db \<and>
   exit_code (check_main xml_listing_XZ first_query_only env_no_db) = 2"
proof -
  have a: "\<not> check_fails xml_listing_XZ first_query_only env_XY"
    by (simp add: check_fails_def env_XY_def ex_no_query_fails)
  have b: "\<not> check_fails xml_listing_XZ first_query_only env_XZ"
    by (simp add: check_fails_def env_XZ_def ex_no_query_fails)
  have c: "check_fails xml_listing_XZ first_query_only env_no_db"
    by (simp add: check_fails_def env_no_db_def)
  have l: "localIds env_XY = Inr [ascii ''act-X'', ascii ''act-Y'']"
    "localIds env_XZ = Inr [ascii ''act-Z'', ascii ''act-X'']"
    by (simp_all add: env_XY_def env_XZ_def)
  obtain ld rc where o:
    "localIds env_XY = Inr ld" "fetchRecentEntries xml_listing_XZ first_query_only = Inr rc"
    "map document_id (newLaws (check_main xml_listing_XZ first_query_only env_XY)) =
       filter (\<lambda>d. d \<notin> set ld) (map derived_id rc)"
    "exit_code (check_main xml_listing_XZ first_query_only env_XY) =
       (if \<exists>entry\<in>set rc. derived_id entry \<notin> set ld then 1 else 0)"
    using a checker_exit_codes[of xml_listing_XZ first_query_only env_XY] by blast
  have v: "ld = [ascii ''act-X'', ascii ''act-Y'']" "rc = [entry_X, entry_Z]"
    using o(1,2) l(1) ex_fetchRecent by simp_all
  have w1: "map document_id (newLaws (check_main xml_listing_XZ first_query_only env_XY)) = [ascii ''act-Z'']
            \<and> exit_code (check_main xml_listing_XZ first_query_only env_XY) = 1"
    unfolding o(3,4) v by (simp add: ex_derived)
  obtain ld' rc' where o':
    "localIds env_XZ = Inr ld'" "fetchRecentEntries xml_listing_XZ first_query_only = Inr rc'"
    "exit_code (check_main xml_listing_XZ first_query_only env_XZ) =
       (if \<exists>entry\<in>set rc'. derived_id entry \<notin> set ld' then 1 else 0)"
    using b checker_exit_codes[of xml_listing_XZ first_query_only env_XZ] by blast
  have v': "ld' = [ascii ''act-Z'', ascii ''act-X'']" "rc' = [entry_X, entry_Z]"
    using o'(1,2) l(2) ex_fetchRecent by simp_all
  have w2: "exit_code (check_main xml_listing_XZ first_query_only env_XZ) = 0"
    unfolding o'(3) v' by (simp add: ex_derived)
  have w3: "exit_code (check_main xml_listing_XZ first_query_only env_no_db) = 2"
    using c checker_exit_codes[of xml_listing_XZ first_query_only env_no_db] by blast
  show ?thesis using a b c w1 w2 w3 by blast
qed

section \<open>Properties of the provision dedup\<close>

lemma map_set_distinct: "distinct (map fst kvs) \<Longrightarrow> distinct (map fst (map_set k v kvs))"
  by (induction kvs) (auto simp: map_set_keys)

lemma map_set_all: "list_all P kvs \<Longrightarrow> P (k, v) \<Longrightarrow> list_all P (map_set k v kvs)"
  by (induction kvs) auto

lemma keyed_map_set:
  "keyed_by_ref byRef \<Longrightarrow> s_provision_ref v = k \<Longrightarrow> keyed_by_ref (map_set k v byRef)"
  by (simp add: keyed_by_ref_def map_set_distinct map_set_all)

lemma keyed_dedupe_step: "keyed_by_ref byRef \<Longrightarrow> keyed_by_ref (dedupe_step byRef p)"
  by (auto simp: dedupe_step_def Let_def keyed_map_set split: option.splits)

lemma keyed_foldl: "keyed_by_ref byRef \<Longrightarrow> keyed_by_ref (foldl dedupe_step byRef ps)"
  by (induction ps arbitrary: byRef) (simp_all add: keyed_dedupe_step)

lemma keyed_map_of:
  "keyed_by_ref byRef \<Longrightarrow> map_of byRef ref = find (\<lambda>q. s_provision_ref q = ref) (map snd byRef)"
  by (induction byRef) (auto simp: keyed_by_ref_def)

lemma keyed_values_new:
  "keyed_by_ref byRef \<Longrightarrow> map_of byRef k = None \<Longrightarrow> map snd (map_set k v byRef) = map snd byRef @ [v]"
  by (induction byRef) (auto simp: keyed_by_ref_def split: if_splits)

lemma keyed_values_replace:
  "keyed_by_ref byRef \<Longrightarrow> map_of byRef k = Some old \<Longrightarrow>
     map snd (map_set k v byRef) = map (\<lambda>q. if s_provision_ref q = k then v else q) (map snd byRef)"
proof (induction byRef)
  case Nil
  then show ?case by simp
next
  case (Cons kv byRef)
  show ?case
  proof (cases "fst kv = k")
    case True
    have "k \<notin> fst ` set byRef" using Cons(2) True by (auto simp: keyed_by_ref_def)
    moreover have "list_all (\<lambda>kv. s_provision_ref (snd kv) = fst kv) byRef"
      using Cons(2) by (simp add: keyed_by_ref_def)
    ultimately have "\<forall>q\<in>set (map snd byRef). s_provision_ref q \<noteq> k"
      by (force simp: list_all_iff)
    then have "map (\<lambda>q. if s_provision_ref q = k then v else q) (map snd byRef) = map snd byRef"
      by (simp add: map_idI)
    moreover have "s_provision_ref (snd kv) = k" using Cons(2) True by (simp add: keyed_by_ref_def)
    ultimately show ?thesis using True by simp
  next
    case False
    moreover have "s_provision_ref (snd kv) \<noteq> k" using Cons(2) False by (simp add: keyed_by_ref_def)
    moreover have "keyed_by_ref byRef" using Cons(2) by (simp add: keyed_by_ref_def)
    moreover have "map_of byRef k = Some old" using Cons(3) False by (cases kv) (simp split: if_splits)
    ultimately show ?thesis using Cons(1) by simp
  qed
qed

lemma dedupeProvisions_snoc:
  "dedupeProvisions (provs @ [p]) =
     (let kept = dedupeProvisions provs; ref = trim (s_provision_ref p) in
      case find (\<lambda>q. s_provision_ref q = ref) kept of
        None \<Rightarrow> kept @ [p \<lparr> s_provision_ref := ref \<rparr>]
      | Some existing \<Rightarrow>
          if length (normalizeWhitespace (s_content p)) > length (normalizeWhitespace (s_content existing))
          then map (\<lambda>q. if s_provision_ref q = ref then replacement existing p else q) kept
          else kept)"
proof -
  define byRef where "byRef = foldl dedupe_step [] provs"
  have k: "keyed_by_ref byRef" unfolding byRef_def by (rule keyed_foldl) (simp add: keyed_by_ref_def)
  have d: "dedupeProvisions (provs @ [p]) = map snd (dedupe_step byRef p)"
    by (simp add: dedupeProvisions_def byRef_def)
  have kept: "dedupeProvisions provs = map snd byRef" by (simp add: dedupeProvisions_def byRef_def)
  show ?thesis
  proof (cases "map_of byRef (trim (s_provision_ref p))")
    case None
    then show ?thesis
      unfolding d kept using keyed_map_of[OF k, of "trim (s_provision_ref p)"] keyed_values_new[OF k None]
      by (simp add: dedupe_step_def Let_def)
  next
    case (Some existing)
    then show ?thesis
      unfolding d kept
      using keyed_map_of[OF k, of "trim (s_provision_ref p)"] keyed_values_replace[OF k Some]
      by (simp add: dedupe_step_def Let_def replacement_def)
  qed
qed

lemma dedupeProvisions_distinct: "distinct (map s_provision_ref (dedupeProvisions provs))"
proof -
  have k: "keyed_by_ref (foldl dedupe_step [] provs)" by (rule keyed_foldl) (simp add: keyed_by_ref_def)
  have e: "map (s_provision_ref \<circ> snd) (foldl dedupe_step [] provs) = map fst (foldl dedupe_step [] provs)"
    using k by (auto simp: keyed_by_ref_def list_all_iff)
  have d: "distinct (map fst (foldl dedupe_step [] provs))" using k by (simp add: keyed_by_ref_def)
  show ?thesis unfolding dedupeProvisions_def map_map e by (rule d)
qed

lemma dedupeProvisions_pair:
  assumes "trim (s_provision_ref p1) = trim (s_provision_ref p2)"
  shows "dedupeProvisions [p1, p2] =
     [if length (normalizeWhitespace (s_content p2)) > length (normalizeWhitespace (s_content p1))
      then replacement p1 p2
      else p1 \<lparr> s_provision_ref := trim (s_provision_ref p1) \<rparr>]"
  using assms by (simp add: dedupeProvisions_def dedupe_step_def Let_def replacement_def split: option.splits)


lemma sample_normal:
  "normalizeWhitespace (ascii ''A'') = ascii ''A''"
  "normalizeWhitespace (ascii ''B'') = ascii ''B''"
  "normalizeWhitespace (ascii ''ABCDE'') = ascii ''ABCDE''"
  by (simp_all add: normalizeWhitespace_def trim_def is_ws_def)

lemma sample_refs:
  "trim (ascii ''art-1'') = ascii ''art-1''" "trim (ascii '' art-1 '') = ascii ''art-1''"
  by (simp_all add: trim_def is_ws_def)

text \<open>
  C5, as the code has it. \<open>dedupeProvisions\<close> compares each provision with the one
  kept so far for its trimmed reference: the incoming one replaces the kept one only when
  its whitespace-normalised content is strictly longer, so on a tie the first stays; the
  replacing provision keeps its own title, or takes the title of the one it replaces when
  it has none. A kept provision is left as it is. The result has one provision per
  reference. For two provisions of one reference this gives the last conjunct.
\<close>

theorem dedupe_running_best:
  "dedupeProvisions [] = [] \<and>
   dedupeProvisions (provs @ [p]) =
     (let kept = dedupeProvisions provs; ref = trim (s_provision_ref p) in
      case find (\<lambda>q. s_provision_ref q = ref) kept of
        None \<Rightarrow> kept @ [p \<lparr> s_provision_ref := ref \<rparr>]
      | Some existing \<Rightarrow>
          if length (normalizeWhitespace (s_content p)) > length (normalizeWhitespace (s_content existing))
          then map (\<lambda>q. if s_provision_ref q = ref then replacement existing p else q) kept
          else kept) \<and>
   distinct (map s_provision_ref (dedupeProvisions provs)) \<and>
   (trim (s_provision_ref p1) = trim (s_provision_ref p2) \<longrightarrow>
      dedupeProvisions [p1, p2] =
        [if length (normalizeWhitespace (s_content p2)) > length (normalizeWhitespace (s_content p1))
         then replacement p1 p2
         else p1 \<lparr> s_provision_ref := trim (s_provision_ref p1) \<rparr>])"
  using dedupeProvisions_snoc[of provs p] dedupeProvisions_distinct[of provs]
    dedupeProvisions_pair[of p1 p2]
  by (simp add: dedupeProvisions_def)

theorem dedupe_running_best_witness:
  "trim (s_provision_ref prov_A) = trim (s_provision_ref prov_ABCDE) \<and>
   dedupeProvisions [prov_A, prov_ABCDE] =
     [prov_ABCDE \<lparr> s_provision_ref := ascii ''art-1'', s_title := Some (ascii ''Purpose'') \<rparr>] \<and>
   dedupeProvisions [prov_A, prov_A \<lparr> s_content := ascii ''B'' \<rparr>] = [prov_A]"
proof -
  have h: "trim (s_provision_ref prov_A) = trim (s_provision_ref prov_ABCDE)"
    by (simp add: prov_A_def prov_ABCDE_def sample_refs[simplified])
  have h2: "trim (s_provision_ref prov_A) = trim (s_provision_ref (prov_A \<lparr> s_content := ascii ''B'' \<rparr>))"
    by simp
  have a: "dedupeProvisions [prov_A, prov_ABCDE] =
     [prov_ABCDE \<lparr> s_provision_ref := ascii ''art-1'', s_title := Some (ascii ''Purpose'') \<rparr>]"
    using h dedupe_running_best[of "[]" prov_A prov_A prov_ABCDE]
    by (simp add: replacement_def prov_A_def prov_ABCDE_def sample_normal[simplified] sample_refs[simplified])
  have b: "dedupeProvisions [prov_A, prov_A \<lparr> s_content := ascii ''B'' \<rparr>] = [prov_A]"
    using h2 dedupe_running_best[of "[]" prov_A prov_A "prov_A \<lparr> s_content := ascii ''B'' \<rparr>"]
    by (simp add: prov_A_def sample_normal[simplified] sample_refs[simplified])
  show ?thesis using h a b by simp
qed

text \<open>
  The claim as the specification words it fails where the first of two provisions is
  kept: it lacks a title, the second one has a title, and the survivor still has none.
\<close>

theorem kept_first_title_not_backfilled:
  "trim (s_provision_ref long_untitled) = trim (s_provision_ref prov_A) \<and>
   s_title long_untitled = None \<and> s_title prov_A = Some (ascii ''Purpose'') \<and>
   dedupeProvisions [long_untitled, prov_A] = [long_untitled] \<and>
   map s_title (dedupeProvisions [long_untitled, prov_A]) = [None]"
  by (simp add: dedupeProvisions_def dedupe_step_def long_untitled_def prov_A_def
      sample_normal[simplified] sample_refs[simplified] Let_def)

section \<open>Seed files that share a document id\<close>

lemma law_id_parseLawXml:
  "law_id (parseLawXml parsed lid) =
     ascii ''act-'' @ (if law_number (parseLawXml parsed lid) \<noteq> [] then law_number (parseLawXml parsed lid) else lid)"
  by (simp add: parseLawXml_def Let_def)

lemma process_law_writes:
  assumes "seedFile_of law \<notin> fst ` set (seedDir st)" "yields_seed xp fetchLawDetail law"
    "lawNumber law \<noteq> []"
  shows "\<exists>written. seedDir (process_law xp fetchLawDetail st law) = map_set (seedFile_of law) written (seedDir st)
           \<and> law_id written = ascii ''act-'' @ lawNumber law"
proof -
  obtain r where r: "fetchLawDetail (lawId law) = Inr r"
    using assms(2) by (cases "fetchLawDetail (lawId law)") (auto simp: yields_seed_def)
  show ?thesis
  proof (cases "status r = 404")
    case True
    have "seedDir (process_law xp fetchLawDetail st law) = map_set (seedFile_of law) (minimalSeed law) (seedDir st)"
      using assms(1) r True by (simp add: process_law_def Let_def)
    moreover have "law_id (minimalSeed law) = ascii ''act-'' @ lawNumber law"
      using assms(3) by (simp add: minimalSeed_def)
    ultimately show ?thesis by blast
  next
    case False
    then have s: "status r = 200" using assms(2) r by (auto simp: yields_seed_def)
    obtain tree where t: "xp (body r) = Inr tree" "law_number (parseLawXml tree (lawId law)) = lawNumber law"
      using assms(2) r False by (cases "xp (body r)") (auto simp: yields_seed_def)
    have "seedDir (process_law xp fetchLawDetail st law) =
            map_set (seedFile_of law) (parseLawXml tree (lawId law)) (seedDir st)"
      using assms(1) r s t by (simp add: process_law_def Let_def)
    moreover have "law_id (parseLawXml tree (lawId law)) = ascii ''act-'' @ lawNumber law"
      using law_id_parseLawXml[of tree "lawId law"] t(2) assms(3) by simp
    ultimately show ?thesis by blast
  qed
qed

lemma seedFile_of_inj: "seedFile_of a = seedFile_of b \<longleftrightarrow> lawId a = lawId b"
  by (simp add: seedFile_of_def)

lemma content_phase_two:
  assumes "lawId e1 \<noteq> lawId e2" "lawNumber e1 \<noteq> []" "lawNumber e2 \<noteq> []"
    "yields_seed xp fetchLawDetail e1" "yields_seed xp fetchLawDetail e2"
  shows "\<exists>law1 law2. seedDir (fetchAndParseLaws xp fetchLawDetail [] [e1, e2] None) =
             [(seedFile_of e1, law1), (seedFile_of e2, law2)]
           \<and> law_id law1 = ascii ''act-'' @ lawNumber e1 \<and> law_id law2 = ascii ''act-'' @ lawNumber e2"
proof -
  let ?st0 = "\<lparr> seedDir = [], processed = 0, skipped = 0, failed = 0, totalProvisions = 0 \<rparr>"
  let ?st1 = "process_law xp fetchLawDetail ?st0 e1"
  obtain law1 where l1: "seedDir ?st1 = map_set (seedFile_of e1) law1 (seedDir ?st0)"
      "law_id law1 = ascii ''act-'' @ lawNumber e1"
    using process_law_writes[of e1 ?st0 xp fetchLawDetail] assms(2,4) by auto
  have d1: "seedDir ?st1 = [(seedFile_of e1, law1)]" using l1(1) by simp
  have "seedFile_of e2 \<notin> fst ` set (seedDir ?st1)"
    using assms(1) by (simp add: d1 seedFile_of_inj)
  then obtain law2 where l2: "seedDir (process_law xp fetchLawDetail ?st1 e2) =
        map_set (seedFile_of e2) law2 (seedDir ?st1)" "law_id law2 = ascii ''act-'' @ lawNumber e2"
    using process_law_writes[of e2 ?st1 xp fetchLawDetail] assms(3,5) by auto
  have "seedDir (fetchAndParseLaws xp fetchLawDetail [] [e1, e2] None) =
          [(seedFile_of e1, law1), (seedFile_of e2, law2)]"
    using l2(1) assms(1) by (simp add: fetchAndParseLaws_def toProcess_of_def d1 seedFile_of_inj)
  then show ?thesis using l1(2) l2(2) by blast
qed


lemma insertDoc_present: "d_id seed \<in> r_id ` set (legal_documents st) \<Longrightarrow> isl (insertDoc st seed)"
  by (simp add: insertDoc_def Let_def)

lemma insertDoc_ids:
  "insertDoc st seed = Inr st1 \<Longrightarrow>
     r_id ` set (legal_documents st1) = insert (d_id seed) (r_id ` set (legal_documents st))"
  by (auto simp: insertDoc_def Let_def split: if_splits)

lemma insertProvision_docs:
  "insertProvision st doc prov = Inr st1 \<Longrightarrow> legal_documents st1 = legal_documents st"
  by (auto simp: insertProvision_def split: if_splits)

lemma insertProvisions_docs:
  "insertProvisions st doc provs = Inr st1 \<Longrightarrow> legal_documents st1 = legal_documents st"
proof (induction provs arbitrary: st)
  case Nil
  then show ?case by simp
next
  case (Cons prov provs)
  then show ?case
    by (cases "insertProvision st doc prov") (auto dest: insertProvision_docs)
qed

lemma load_seed_ids:
  assumes "load_seed st seed = Inr st1"
  shows "r_id ` set (legal_documents st1) = insert (d_id seed) (r_id ` set (legal_documents st))"
proof -
  obtain sta where a: "insertDoc st seed = Inr sta"
    using assms by (cases "insertDoc st seed") (auto simp: load_seed_def)
  have "legal_documents st1 = legal_documents sta"
  proof (cases "d_provisions seed")
    case None
    then show ?thesis using assms a by (simp add: load_seed_def)
  next
    case (Some provs)
    show ?thesis
    proof (cases "provs = []")
      case True
      then show ?thesis using assms a Some by (simp add: load_seed_def)
    next
      case False
      then obtain stb where b: "insertProvisions sta (d_id seed) (dedupeProvisions provs) = Inr stb"
        using assms a Some
        by (cases "insertProvisions sta (d_id seed) (dedupeProvisions provs)") (auto simp: load_seed_def)
      have "legal_documents st1 = legal_documents stb"
        using assms a Some False b by (auto simp: load_seed_def split: if_splits)
      then show ?thesis using insertProvisions_docs[OF b] by simp
    qed
  qed
  then show ?thesis using insertDoc_ids[OF a] by simp
qed

lemma load_seed_present: "d_id seed \<in> r_id ` set (legal_documents st) \<Longrightarrow> isl (load_seed st seed)"
  using insertDoc_present[of seed st] by (cases "insertDoc st seed") (auto simp: load_seed_def)

lemma load_seeds_present:
  "seed \<in> set seeds \<Longrightarrow> d_id seed \<in> r_id ` set (legal_documents st) \<Longrightarrow> isl (load_seeds st seeds)"
proof (induction seeds arbitrary: st)
  case Nil
  then show ?case by simp
next
  case (Cons a seeds)
  show ?case
  proof (cases "load_seed st a")
    case (Inl e)
    then show ?thesis by simp
  next
    case (Inr st1)
    have ids: "r_id ` set (legal_documents st1) = insert (d_id a) (r_id ` set (legal_documents st))"
      by (rule load_seed_ids[OF Inr])
    have "seed \<noteq> a" using Cons(3) Inr load_seed_present[of a st] by auto
    then have "seed \<in> set seeds" using Cons(2) by simp
    moreover have "d_id seed \<in> r_id ` set (legal_documents st1)" using Cons(3) ids by simp
    ultimately show ?thesis using Cons(1) Inr by simp
  qed
qed

lemma load_seeds_duplicate: "\<not> distinct (map d_id seeds) \<Longrightarrow> isl (load_seeds st seeds)"
proof (induction seeds arbitrary: st)
  case Nil
  then show ?case by simp
next
  case (Cons a seeds)
  show ?case
  proof (cases "load_seed st a")
    case (Inl e)
    then show ?thesis by simp
  next
    case (Inr st1)
    have ids: "r_id ` set (legal_documents st1) = insert (d_id a) (r_id ` set (legal_documents st))"
      by (rule load_seed_ids[OF Inr])
    show ?thesis
    proof (cases "d_id a \<in> d_id ` set seeds")
      case True
      then obtain seed where "seed \<in> set seeds" "d_id seed = d_id a" by auto
      then have "isl (load_seeds st1 seeds)" using ids by (intro load_seeds_present[of seed]) auto
      then show ?thesis using Inr by simp
    next
      case False
      then have "\<not> distinct (map d_id seeds)" using Cons(2) by simp
      then show ?thesis using Cons(1) Inr by simp
    qed
  qed
qed

lemma buildDatabase_duplicate:
  assumes "\<not> distinct (map (d_id \<circ> snd) (filter (\<lambda>f. is_seed_file (fst f)) files))"
  shows "\<exists>err. buildDatabase (Some files) = (Some err, empty_store)"
proof -
  let ?seedFiles = "filter (\<lambda>f. is_seed_file (fst f)) files"
  have ne: "?seedFiles \<noteq> []" using assms by auto
  have "\<not> distinct (map d_id (map snd ?seedFiles))" using assms by simp
  then have "isl (loadAll empty_store (map snd ?seedFiles))"
    unfolding loadAll_def by (rule load_seeds_duplicate)
  then obtain err where "loadAll empty_store (map snd ?seedFiles) = Inl err"
    by (cases "loadAll empty_store (map snd ?seedFiles)") auto
  then show ?thesis using ne by (simp add: buildDatabase_def Let_def)
qed


lemma ex_seed_files: "is_seed_file (seedFile_of ex_entry)" "is_seed_file (seedFile_of ex_entry2)"
  by (simp_all add: is_seed_file_def seedFile_of_def ex_entry_def ex_entry2_def ends_with_def starts_with_def)

lemma ex_yields: "yields_seed xml_ex_law (respond 404) ex_entry" "yields_seed xml_ex_law (respond 404) ex_entry2"
  by (simp_all add: yields_seed_def respond_def)

lemma ex_run_dir:
  "seedDir (fetchAndParseLaws xml_ex_law (respond 404) [] [ex_entry, ex_entry2] None) =
     [(ascii ''1.json'', minimalSeed ex_entry), (ascii ''2.json'', minimalSeed ex_entry2)]"
  by (simp add: fetchAndParseLaws_def toProcess_of_def process_law_def respond_def seedFile_of_def
      ex_entry_def ex_entry2_def Let_def)

lemma ex_stub_seeds:
  "d_id (seed_of_law (minimalSeed ex_entry)) = ascii ''act-N1''"
  "d_id (seed_of_law (minimalSeed ex_entry2)) = ascii ''act-N1''"
  "d_type (seed_of_law (minimalSeed e)) = Some (ascii ''statute'')"
  "d_status (seed_of_law (minimalSeed e)) = Some (ascii ''in_force'')"
  "d_provisions (seed_of_law (minimalSeed e)) = Some []"
  by (simp_all add: seed_of_law_def minimalSeed_def ex_entry_def ex_entry2_def type_name_def status_name_def)

lemma ex_insert_first:
  "\<exists>st1. insertDoc (insertDefaultEuDocuments empty_store) (seed_of_law (minimalSeed ex_entry)) = Inr st1
     \<and> r_id ` set (legal_documents st1) = {ascii ''act-N1''}"
  by (simp add: insertDoc_def ex_stub_seeds or_else_def insertDefaultEuDocuments_def empty_store_def Let_def)

lemma ex_rebuild_error:
  "buildDatabase (Some (seeds_on_disk (fetchAndParseLaws xml_ex_law (respond 404) [] [ex_entry, ex_entry2] None)))
     = (Some (Thrown (ascii ''UNIQUE constraint failed: legal_documents.id'')), empty_store)"
proof -
  obtain st1 where a: "insertDoc (insertDefaultEuDocuments empty_store) (seed_of_law (minimalSeed ex_entry)) = Inr st1"
    and b: "r_id ` set (legal_documents st1) = {ascii ''act-N1''}"
    using ex_insert_first by blast
  have l1: "load_seed (insertDefaultEuDocuments empty_store) (seed_of_law (minimalSeed ex_entry)) = Inr st1"
    by (simp add: load_seed_def a ex_stub_seeds)
  have c: "insertDoc st1 (seed_of_law (minimalSeed ex_entry2)) =
             Inl (Thrown (ascii ''UNIQUE constraint failed: legal_documents.id''))"
    using b by (simp add: insertDoc_def ex_stub_seeds or_else_def Let_def)
  have l2: "load_seed st1 (seed_of_law (minimalSeed ex_entry2)) =
             Inl (Thrown (ascii ''UNIQUE constraint failed: legal_documents.id''))"
    by (simp add: load_seed_def c)
  have f: "is_seed_file (ascii ''1.json'')" "is_seed_file (ascii ''2.json'')"
    by (simp_all add: is_seed_file_def ends_with_def starts_with_def)
  show ?thesis
    unfolding seeds_on_disk_def ex_run_dir buildDatabase_def loadAll_def
    using f l1 l2 by (simp add: Let_def del: ascii.simps)
qed

text \<open>
  C9. Take two index entries with distinct upstream ids and the same non-empty law
  number, whose files the builder reads, and whose fetches each leave a seed with that
  number (a 404 stub, or a parsed document that carries the number). From an empty seed
  directory the content phase writes two files, under distinct names, whose ids are
  both \<open>act-\<close> followed by that law number, hence equal; the rebuild over that directory raises inside its transaction and commits no
  row. Any two seed files with one id abort the load (lemma
  \<open>buildDatabase_duplicate\<close>); for two stubs the error is the violated primary key.
\<close>

theorem equal_numbers_abort_rebuild:
  assumes "lawId e1 \<noteq> lawId e2" "lawNumber e1 = lawNumber e2" "lawNumber e1 \<noteq> []"
    and "is_seed_file (seedFile_of e1)" "is_seed_file (seedFile_of e2)"
    and "yields_seed xp fetchLawDetail e1" "yields_seed xp fetchLawDetail e2"
  shows "\<exists>law1 law2 err.
     seedDir (fetchAndParseLaws xp fetchLawDetail [] [e1, e2] None) =
       [(seedFile_of e1, law1), (seedFile_of e2, law2)] \<and>
     seedFile_of e1 \<noteq> seedFile_of e2 \<and>
     law_id law1 = ascii ''act-'' @ lawNumber e1 \<and> law_id law2 = ascii ''act-'' @ lawNumber e2 \<and>
     law_id law1 = law_id law2 \<and>
     buildDatabase (Some (seeds_on_disk (fetchAndParseLaws xp fetchLawDetail [] [e1, e2] None))) =
       (Some err, empty_store)"
proof -
  let ?st = "fetchAndParseLaws xp fetchLawDetail [] [e1, e2] None"
  obtain law1 law2 where d: "seedDir ?st = [(seedFile_of e1, law1), (seedFile_of e2, law2)]"
    and i: "law_id law1 = ascii ''act-'' @ lawNumber e1" "law_id law2 = ascii ''act-'' @ lawNumber e2"
    using content_phase_two[OF assms(1) assms(3) _ assms(6,7)] assms(2,3) by auto
  have eq: "law_id law1 = law_id law2" using i assms(2) by simp
  have f: "seedFile_of e1 \<noteq> seedFile_of e2" using assms(1) by (simp add: seedFile_of_inj)
  have "\<not> distinct (map (d_id \<circ> snd) (filter (\<lambda>f. is_seed_file (fst f)) (seeds_on_disk ?st)))"
    using assms(4,5) eq by (simp add: seeds_on_disk_def d seed_of_law_def)
  then obtain err where "buildDatabase (Some (seeds_on_disk ?st)) = (Some err, empty_store)"
    using buildDatabase_duplicate by blast
  then show ?thesis using d f i eq by blast
qed

theorem equal_numbers_abort_rebuild_witness:
  "lawId ex_entry \<noteq> lawId ex_entry2 \<and> lawNumber ex_entry = lawNumber ex_entry2 \<and>
   lawNumber ex_entry \<noteq> [] \<and>
   is_seed_file (seedFile_of ex_entry) \<and> is_seed_file (seedFile_of ex_entry2) \<and>
   yields_seed xml_ex_law (respond 404) ex_entry \<and> yields_seed xml_ex_law (respond 404) ex_entry2 \<and>
   (\<exists>law1 law2 err.
     seedDir (fetchAndParseLaws xml_ex_law (respond 404) [] [ex_entry, ex_entry2] None) =
       [(seedFile_of ex_entry, law1), (seedFile_of ex_entry2, law2)] \<and>
     seedFile_of ex_entry \<noteq> seedFile_of ex_entry2 \<and>
     law_id law1 = ascii ''act-'' @ lawNumber ex_entry \<and>
     law_id law2 = ascii ''act-'' @ lawNumber ex_entry2 \<and>
     law_id law1 = law_id law2 \<and>
     buildDatabase (Some (seeds_on_disk (fetchAndParseLaws xml_ex_law (respond 404) [] [ex_entry, ex_entry2] None))) =
       (Some err, empty_store)) \<and>
   buildDatabase (Some (seeds_on_disk (fetchAndParseLaws xml_ex_law (respond 404) [] [ex_entry, ex_entry2] None)))
     = (Some (Thrown (ascii ''UNIQUE constraint failed: legal_documents.id'')), empty_store)"
proof -
  have h: "lawId ex_entry \<noteq> lawId ex_entry2" "lawNumber ex_entry = lawNumber ex_entry2"
    "lawNumber ex_entry \<noteq> []"
    by (simp_all add: ex_entry_def ex_entry2_def)
  show ?thesis
    using h ex_seed_files ex_yields ex_rebuild_error
      equal_numbers_abort_rebuild[OF h ex_seed_files ex_yields]
    by blast
qed

end
